theory Spec2Isabelle
  imports Complex_Main
begin

section \<open>The particle system of assets/js/particles.js\<close>

text \<open>
  JavaScript numbers are modelled as real numbers: arithmetic is exact, and there is no
  NaN, no infinity and no signed zero. Counts and array indices are natural numbers.
  An object reference into the particle array is modelled as the index of the object.
\<close>

subsection \<open>Configuration\<close>

text \<open>The object \<open>PARTICLE_CONFIG\<close>; a nested field \<open>a.b\<close> is the field \<open>a_b\<close>.\<close>

record config =
  particleCount :: nat
  connectionDistance :: real
  particleSize_min :: real
  particleSize_max :: real
  colors :: "string list"
  physics_gravity :: real
  physics_friction :: real
  physics_bounce :: real
  mouse_attractionRadius :: real
  mouse_repulsionRadius :: real
  mouse_attractionForce :: real
  mouse_repulsionForce :: real
  explosion_particleCount :: nat
  explosion_speed :: real
  explosion_lifetime :: real

definition PARTICLE_CONFIG :: config where
  "PARTICLE_CONFIG =
     \<lparr> particleCount = 50,
       connectionDistance = 150,
       particleSize_min = 1,
       particleSize_max = 4,
       colors = [''#2B2B2B'', ''#8B7355'', ''#D0C9BC'', ''#707070''],
       physics_gravity = 5 / 100,
       physics_friction = 99 / 100,
       physics_bounce = 8 / 10,
       mouse_attractionRadius = 100,
       mouse_repulsionRadius = 50,
       mouse_attractionForce = 2 / 100,
       mouse_repulsionForce = 1 / 10,
       explosion_particleCount = 20,
       explosion_speed = 5,
       explosion_lifetime = 1000 \<rparr>"

text \<open>The part of the browser's \<open>window\<close> object that the code reads.\<close>

record window =
  innerWidth :: real
  innerHeight :: real

subsection \<open>class Particle\<close>

text \<open>
  A connection \<open>{particle: p2, distance: d}\<close> is the pair of the index of \<open>p2\<close> in the
  particle array and \<open>d\<close>. The colour is \<open>None\<close> where the array read gives
  \<open>undefined\<close>.
\<close>

record particle =
  x :: real
  y :: real
  vx :: real
  vy :: real
  size_p :: real
  color :: "string option"
  alpha :: real
  life :: real
  decay :: real
  connections :: "(nat \<times> real) list"

text \<open>
  The constructor. \<open>rnd k\<close> is the result of the \<open>k\<close>-th call of \<open>Math.random()\<close> that
  the constructor makes (five calls, in the order of the assignments).
\<close>

definition new_Particle :: "config \<Rightarrow> (nat \<Rightarrow> real) \<Rightarrow> real \<Rightarrow> real \<Rightarrow> particle" where
  "new_Particle cfg rnd px py =
     \<lparr> x = px,
       y = py,
       vx = (rnd 0 - 1 / 2) * 2,
       vy = (rnd 1 - 1 / 2) * 2,
       size_p = particleSize_min cfg
                + rnd 2 * (particleSize_max cfg - particleSize_min cfg),
       color = (let i = \<lfloor>rnd 3 * real (length (colors cfg))\<rfloor>
                in if 0 \<le> i \<and> i < int (length (colors cfg))
                   then Some (colors cfg ! nat i) else None),
       alpha = 1,
       life = 1,
       decay = 5 / 1000 + rnd 4 * (5 / 1000),
       connections = [] \<rparr>"

text \<open>
  \<open>Particle.update\<close>. Each binding is one assignment of the method, in the order of
  the source; the two \<open>if\<close> statements assign the velocity and then the position.
\<close>

definition update :: "config \<Rightarrow> window \<Rightarrow> particle \<Rightarrow> particle" where
  "update cfg win p =
     (let vy1 = vy p + physics_gravity cfg;
          vx1 = vx p * physics_friction cfg;
          vy2 = vy1 * physics_friction cfg;
          x1 = x p + vx1;
          y1 = y p + vy2;
          life1 = life p - decay p;
          alpha1 = max 0 life1;
          (vx2, x2) = (if x1 < 0 \<or> x1 > innerWidth win
                       then (vx1 * - physics_bounce cfg, max 0 (min (innerWidth win) x1))
                       else (vx1, x1));
          (vy3, y2) = (if y1 < 0 \<or> y1 > innerHeight win
                       then (vy2 * - physics_bounce cfg, max 0 (min (innerHeight win) y1))
                       else (vy2, y1))
      in p\<lparr>x := x2, y := y2, vx := vx2, vy := vy3, alpha := alpha1, life := life1\<rparr>)"

definition isWithinRadius :: "particle \<Rightarrow> real \<Rightarrow> real \<Rightarrow> real \<Rightarrow> bool" where
  "isWithinRadius p cx cy radius =
     (let dx = x p - cx; dy = y p - cy
      in sqrt (dx * dx + dy * dy) < radius)"

definition applyForce :: "particle \<Rightarrow> real \<Rightarrow> real \<Rightarrow> particle" where
  "applyForce p fx fy = p\<lparr>vx := vx p + fx, vy := vy p + fy\<rparr>"

definition isDead :: "particle \<Rightarrow> bool" where
  "isDead p = (alpha p \<le> 0)"

subsection \<open>The update pass of \<open>ParticleSystem.animate\<close>\<close>

text \<open>
  \<open>this.particles = this.particles.filter(particle => { particle.update(); return
  !particle.isDead(); })\<close>: the array is visited front to back, each particle is
  updated in place and is kept when it is not dead after its update.
\<close>

fun updateParticles :: "config \<Rightarrow> window \<Rightarrow> particle list \<Rightarrow> particle list" where
  "updateParticles cfg win [] = []"
| "updateParticles cfg win (p # ps) =
     (let p' = update cfg win p
      in if \<not> isDead p' then p' # updateParticles cfg win ps
         else updateParticles cfg win ps)"

subsection \<open>The canvas and the state of a \<open>ParticleSystem\<close>\<close>

text \<open>
  The 2D context is the list of the operations issued on it so far. \<open>getContext('2d')\<close>
  may return \<open>null\<close>; a method call on \<open>null\<close> throws a \<open>TypeError\<close>.
\<close>

datatype ctx_op =
    ClearRect real real real real
  | Save
  | Restore
  | SetGlobalAlpha real
  | SetFillStyle "string option"
  | SetStrokeStyle string
  | SetLineWidth real
  | BeginPath
  | Arc real real real real real
  | Fill
  | MoveTo real real
  | LineTo real real
  | Stroke

datatype error = TypeError

text \<open>The statements of \<open>animate\<close>, for the log of the order in which they run.\<close>

datatype call =
    C_clearRect
  | C_applyMouseForces
  | C_updateParticles
  | C_updateConnections
  | C_drawConnections
  | C_drawParticles
  | C_requestAnimationFrame

text \<open>
  The fields of the object, and two components of the environment: \<open>pendingFrames\<close>
  counts the callbacks registered with \<open>requestAnimationFrame\<close> that have not run
  yet, and \<open>calls\<close> logs the statements of \<open>animate\<close> as they are reached.
\<close>

record system =
  canvas_width :: real
  canvas_height :: real
  ctx :: "ctx_op list option"
  particles :: "particle list"
  mouseX :: real
  mouseY :: real
  isMouseOver :: bool
  lastMouseX :: real
  lastMouseY :: real
  pendingFrames :: nat
  calls :: "call list"

text \<open>
  The outcome of a method that may throw: \<open>Inl (e, s)\<close> when \<open>e\<close> is thrown in state
  \<open>s\<close> (what was mutated before the throw stays mutated), \<open>Inr s\<close> on return.
\<close>

type_synonym outcome = "(error \<times> system) + system"

definition ctx_do :: "ctx_op list \<Rightarrow> system \<Rightarrow> outcome" where
  "ctx_do ops s =
     (case ctx s of
        None \<Rightarrow> Inl (TypeError, s)
      | Some issued \<Rightarrow> Inr (s\<lparr>ctx := Some (issued @ ops)\<rparr>))"

definition enter :: "call \<Rightarrow> system \<Rightarrow> system" where
  "enter c s = s\<lparr>calls := calls s @ [c]\<rparr>"

subsection \<open>class ParticleSystem\<close>

text \<open>
  \<open>initParticles\<close>: particle \<open>i\<close> takes the draws \<open>7 * i\<close> and \<open>7 * i + 1\<close> of
  \<open>Math.random()\<close> for its position and the next five in its constructor.
\<close>

definition initParticles :: "config \<Rightarrow> window \<Rightarrow> (nat \<Rightarrow> real) \<Rightarrow> particle list" where
  "initParticles cfg win rnd =
     map (\<lambda>i. new_Particle cfg (\<lambda>k. rnd (7 * i + 2 + k))
                 (rnd (7 * i) * innerWidth win) (rnd (7 * i + 1) * innerHeight win))
       [0..<particleCount cfg]"

text \<open>
  The constructor, without the event listeners; \<open>cw\<close>, \<open>ch\<close> and \<open>context\<close> are the
  size of the canvas it is given and the result of \<open>canvas.getContext('2d')\<close>.
\<close>

definition new_ParticleSystem ::
  "config \<Rightarrow> window \<Rightarrow> (nat \<Rightarrow> real) \<Rightarrow> real \<Rightarrow> real \<Rightarrow> ctx_op list option \<Rightarrow> system" where
  "new_ParticleSystem cfg win rnd cw ch context =
     \<lparr> canvas_width = cw,
       canvas_height = ch,
       ctx = context,
       particles = initParticles cfg win rnd,
       mouseX = 0,
       mouseY = 0,
       isMouseOver = False,
       lastMouseX = 0,
       lastMouseY = 0,
       pendingFrames = 0,
       calls = [] \<rparr>"

text \<open>
  \<open>xs.slice(-k)\<close> for a count \<open>k\<close>: the last \<open>k\<close> elements, the whole array when it has
  fewer; \<open>-0\<close> is \<open>0\<close>, so \<open>slice(-0)\<close> is the whole array.
\<close>

definition slice_last :: "nat \<Rightarrow> 'a list \<Rightarrow> 'a list" where
  "slice_last k xs = (if k = 0 then xs else drop (length xs - k) xs)"

text \<open>
  The body of the loop of \<open>createExplosion\<close> for index \<open>i\<close>. Iteration \<open>i\<close> takes draw
  \<open>6 * i\<close> for the speed and the next five in the constructor. The division
  \<open>1 / lifetime\<close> is the source's only where the lifetime is not zero.
\<close>

definition explosionParticle :: "config \<Rightarrow> (nat \<Rightarrow> real) \<Rightarrow> real \<Rightarrow> real \<Rightarrow> nat \<Rightarrow> particle" where
  "explosionParticle cfg rnd ex ey i =
     (let angle = (pi * 2 * real i) / real (explosion_particleCount cfg);
          speed = explosion_speed cfg * (1 / 2 + rnd (6 * i) * (1 / 2));
          particle = new_Particle cfg (\<lambda>k. rnd (6 * i + 1 + k)) ex ey
      in particle\<lparr>vx := cos angle * speed, vy := sin angle * speed,
                   life := 1, decay := 1 / explosion_lifetime cfg\<rparr>)"

definition createExplosion :: "config \<Rightarrow> (nat \<Rightarrow> real) \<Rightarrow> real \<Rightarrow> real \<Rightarrow> system \<Rightarrow> system" where
  "createExplosion cfg rnd ex ey s =
     (let explosionParticles =
            map (explosionParticle cfg rnd ex ey) [0..<explosion_particleCount cfg];
          ps = particles s @ explosionParticles
      in s\<lparr>particles :=
             (if length ps > particleCount cfg * 2
              then slice_last (particleCount cfg * 2) ps else ps)\<rparr>)"

definition handleResize :: "window \<Rightarrow> system \<Rightarrow> system" where
  "handleResize win s =
     s\<lparr>canvas_width := innerWidth win, canvas_height := innerHeight win\<rparr>"

text \<open>\<open>Math.atan2(b, a)\<close> on the reals.\<close>

definition Math_atan2 :: "real \<Rightarrow> real \<Rightarrow> real" where
  "Math_atan2 b a =
     (if 0 < a then arctan (b / a)
      else if a < 0 \<and> 0 \<le> b then arctan (b / a) + pi
      else if a < 0 then arctan (b / a) - pi
      else if 0 < b then pi / 2
      else if b < 0 then - (pi / 2)
      else 0)"

text \<open>The callback of the \<open>forEach\<close> of \<open>applyMouseForces\<close>, for the pointer at \<open>(mx, my)\<close>.\<close>

definition mouseForce :: "config \<Rightarrow> real \<Rightarrow> real \<Rightarrow> particle \<Rightarrow> particle" where
  "mouseForce cfg mx my p =
     (let dx = mx - x p;
          dy = my - y p;
          distance = sqrt (dx * dx + dy * dy)
      in if distance < mouse_repulsionRadius cfg
         then (let force = mouse_repulsionForce cfg
                             * (1 - distance / mouse_repulsionRadius cfg);
                   angle = Math_atan2 dy dx
               in applyForce p (cos angle * force) (sin angle * force))
         else if distance < mouse_attractionRadius cfg
         then (let force = mouse_attractionForce cfg
                             * (distance / mouse_attractionRadius cfg);
                   angle = Math_atan2 dy dx
               in applyForce p (cos angle * force) (sin angle * force))
         else p)"

definition applyMouseForces :: "config \<Rightarrow> system \<Rightarrow> system" where
  "applyMouseForces cfg s =
     (if \<not> isMouseOver s then s
      else s\<lparr>particles := map (mouseForce cfg (mouseX s) (mouseY s)) (particles s)\<rparr>)"

text \<open>
  The body of the inner loop of \<open>updateConnections\<close> for the indices \<open>i\<close> and \<open>j\<close>: the
  connection is pushed on the particle at \<open>i\<close> only.
\<close>

definition connectPair :: "config \<Rightarrow> nat \<Rightarrow> nat \<Rightarrow> particle list \<Rightarrow> particle list" where
  "connectPair cfg i j ps =
     (let p1 = ps ! i;
          p2 = ps ! j;
          dx = x p1 - x p2;
          dy = y p1 - y p2;
          distance = sqrt (dx * dx + dy * dy)
      in if distance < connectionDistance cfg
         then ps[i := p1\<lparr>connections := connections p1 @ [(j, distance)]\<rparr>]
         else ps)"

text \<open>
  The two loops run over \<open>i < length\<close> and \<open>i + 1 \<le> j < length\<close>; the length of the
  array does not change in them, so every read is in range.
\<close>

definition updateConnections :: "config \<Rightarrow> system \<Rightarrow> system" where
  "updateConnections cfg s =
     (let cleared = map (\<lambda>p. p\<lparr>connections := []\<rparr>) (particles s)
      in s\<lparr>particles :=
             fold (\<lambda>i ps. fold (\<lambda>j ps. connectPair cfg i j ps) [Suc i..<length ps] ps)
               [0..<length cleared] cleared\<rparr>)"

text \<open>The operations that \<open>drawConnections\<close> issues for one particle of the array \<open>ps\<close>.\<close>

definition connectionOps :: "config \<Rightarrow> particle list \<Rightarrow> particle \<Rightarrow> ctx_op list" where
  "connectionOps cfg ps p =
     concat (map (\<lambda>(j, distance).
                    (let opacity = 1 - distance / connectionDistance cfg
                     in [SetGlobalAlpha (opacity * (3 / 10) * alpha p),
                         BeginPath,
                         MoveTo (x p) (y p),
                         LineTo (x (ps ! j)) (y (ps ! j)),
                         Stroke]))
             (connections p))"

definition drawConnections :: "config \<Rightarrow> system \<Rightarrow> outcome" where
  "drawConnections cfg s =
     ctx_do ([Save, SetStrokeStyle ''rgba(139, 115, 85, 0.1)'', SetLineWidth (1 / 2)]
             @ concat (map (connectionOps cfg (particles s)) (particles s))
             @ [Restore]) s"

text \<open>\<open>Particle.draw\<close>: the operations it issues, and the call on the context of the system.\<close>

definition drawOps :: "particle \<Rightarrow> ctx_op list" where
  "drawOps p =
     [Save, SetGlobalAlpha (alpha p), SetFillStyle (color p), BeginPath,
      Arc (x p) (y p) (size_p p) 0 (pi * 2), Fill, Restore]"

definition draw :: "particle \<Rightarrow> system \<Rightarrow> outcome" where
  "draw p s = ctx_do (drawOps p) s"

text \<open>\<open>this.particles.forEach(particle => { particle.draw(this.ctx); })\<close>\<close>

fun drawParticles :: "particle list \<Rightarrow> system \<Rightarrow> outcome" where
  "drawParticles [] s = Inr s"
| "drawParticles (p # ps) s =
     (case draw p s of Inl thrown \<Rightarrow> Inl thrown | Inr s' \<Rightarrow> drawParticles ps s')"

definition requestAnimationFrame :: "system \<Rightarrow> system" where
  "requestAnimationFrame s = s\<lparr>pendingFrames := pendingFrames s + 1\<rparr>"

text \<open>
  \<open>animate\<close>, statement by statement; an exception of a statement leaves the method
  at once, so the statements after it do not run.
\<close>

definition animate :: "config \<Rightarrow> window \<Rightarrow> system \<Rightarrow> outcome" where
  "animate cfg win s =
     (case ctx_do [ClearRect 0 0 (canvas_width s) (canvas_height s)] (enter C_clearRect s) of
        Inl thrown \<Rightarrow> Inl thrown
      | Inr s1 \<Rightarrow>
         (let s2 = applyMouseForces cfg (enter C_applyMouseForces s1);
              s3 = (enter C_updateParticles s2)
                     \<lparr>particles := updateParticles cfg win (particles s2)\<rparr>;
              s4 = updateConnections cfg (enter C_updateConnections s3)
          in case drawConnections cfg (enter C_drawConnections s4) of
               Inl thrown \<Rightarrow> Inl thrown
             | Inr s5 \<Rightarrow>
                (case drawParticles (particles s5) (enter C_drawParticles s5) of
                   Inl thrown \<Rightarrow> Inl thrown
                 | Inr s6 \<Rightarrow> Inr (requestAnimationFrame (enter C_requestAnimationFrame s6)))))"

definition start :: "config \<Rightarrow> window \<Rightarrow> system \<Rightarrow> outcome" where
  "start cfg win s = animate cfg win (handleResize win s)"

text \<open>
  The browser running one pending frame callback: the callback is taken off the queue
  and \<open>animate\<close> runs; with no callback pending nothing happens.
\<close>

definition runFrame :: "config \<Rightarrow> window \<Rightarrow> system \<Rightarrow> outcome" where
  "runFrame cfg win s =
     (if pendingFrames s = 0 then Inr s
      else animate cfg win (s\<lparr>pendingFrames := pendingFrames s - 1\<rparr>))"

text \<open>
  \<open>n\<close> frames in a row. An exception that leaves a callback is reported by the browser
  and the page goes on in the state the callback left.
\<close>

fun runFrames :: "config \<Rightarrow> window \<Rightarrow> nat \<Rightarrow> system \<Rightarrow> system" where
  "runFrames cfg win 0 s = s"
| "runFrames cfg win (Suc n) s =
     (case runFrame cfg win s of
        Inl (e, s') \<Rightarrow> runFrames cfg win n s'
      | Inr s' \<Rightarrow> runFrames cfg win n s')"

subsection \<open>Closed forms used in the statements\<close>

text \<open>The distance that \<open>updateConnections\<close> computes for a pair of particles.\<close>

definition distanceBetween :: "particle \<Rightarrow> particle \<Rightarrow> real" where
  "distanceBetween p1 p2 =
     (let dx = x p1 - x p2; dy = y p1 - y p2 in sqrt (dx * dx + dy * dy))"

text \<open>
  The connections of the particle at index \<open>i\<close> of \<open>ps\<close>: the later particles that are
  closer than the connection distance, in the order of their indices.
\<close>

definition connectionsOf :: "config \<Rightarrow> particle list \<Rightarrow> nat \<Rightarrow> (nat \<times> real) list" where
  "connectionsOf cfg ps i =
     map (\<lambda>j. (j, distanceBetween (ps ! i) (ps ! j)))
       (filter (\<lambda>j. distanceBetween (ps ! i) (ps ! j) < connectionDistance cfg)
          [Suc i..<length ps])"

subsection \<open>Concrete inputs\<close>

definition example_window :: window where
  "example_window = \<lparr>innerWidth = 800, innerHeight = 600\<rparr>"

text \<open>A particle at rest at \<open>(px, py)\<close> with remaining life \<open>l\<close> and decay \<open>d\<close>.\<close>

definition example_particle :: "real \<Rightarrow> real \<Rightarrow> real \<Rightarrow> real \<Rightarrow> particle" where
  "example_particle px py l d =
     \<lparr> x = px, y = py, vx = 0, vy = 0, size_p = 1, color = Some ''#2B2B2B'',
       alpha = max 0 l, life = l, decay = d, connections = [] \<rparr>"

text \<open>A system with the particles \<open>ps\<close>, a working context, an 800 by 600 canvas and the pointer away.\<close>

definition example_system :: "particle list \<Rightarrow> system" where
  "example_system ps =
     \<lparr> canvas_width = 800, canvas_height = 600, ctx = Some [], particles = ps,
       mouseX = 0, mouseY = 0, isMouseOver = False, lastMouseX = 0, lastMouseY = 0,
       pendingFrames = 0, calls = [] \<rparr>"

text \<open>A viewport of zero width and height, and a narrow one.\<close>

definition zero_window :: window where
  "zero_window = \<lparr>innerWidth = 0, innerHeight = 0\<rparr>"

definition narrow_window :: window where
  "narrow_window = \<lparr>innerWidth = 100, innerHeight = 100\<rparr>"

text \<open>The pointer at \<open>(mx, my)\<close> and over the page.\<close>

definition pointer_at :: "real \<Rightarrow> real \<Rightarrow> system \<Rightarrow> system" where
  "pointer_at mx my s = s\<lparr>mouseX := mx, mouseY := my, isMouseOver := True\<rparr>"

text \<open>
  The system that the constructor gives when \<open>getContext\<close> returns \<open>null\<close>, for a new
  canvas (300 by 150) and every draw \<open>0.5\<close>.
\<close>

definition null_context_system :: system where
  "null_context_system =
     new_ParticleSystem PARTICLE_CONFIG example_window (\<lambda>k. 1 / 2) 300 150 None"

section \<open>Properties\<close>

subsection \<open>Values of the concrete inputs\<close>

lemma PARTICLE_CONFIG_sel [simp]:
  "particleCount PARTICLE_CONFIG = 50"
  "connectionDistance PARTICLE_CONFIG = 150"
  "physics_gravity PARTICLE_CONFIG = 5 / 100"
  "physics_friction PARTICLE_CONFIG = 99 / 100"
  "physics_bounce PARTICLE_CONFIG = 8 / 10"
  "mouse_attractionRadius PARTICLE_CONFIG = 100"
  "mouse_repulsionRadius PARTICLE_CONFIG = 50"
  "mouse_attractionForce PARTICLE_CONFIG = 2 / 100"
  "mouse_repulsionForce PARTICLE_CONFIG = 1 / 10"
  "explosion_particleCount PARTICLE_CONFIG = 20"
  "explosion_speed PARTICLE_CONFIG = 5"
  "explosion_lifetime PARTICLE_CONFIG = 1000"
  by (simp_all add: PARTICLE_CONFIG_def)

lemma example_particle_sel [simp]:
  "x (example_particle px py l d) = px"
  "y (example_particle px py l d) = py"
  "vx (example_particle px py l d) = 0"
  "vy (example_particle px py l d) = 0"
  "life (example_particle px py l d) = l"
  "decay (example_particle px py l d) = d"
  "alpha (example_particle px py l d) = max 0 l"
  "connections (example_particle px py l d) = []"
  by (simp_all add: example_particle_def)

lemma example_system_sel [simp]:
  "particles (example_system ps) = ps"
  "ctx (example_system ps) = Some []"
  "isMouseOver (example_system ps) = False"
  "pendingFrames (example_system ps) = 0"
  "calls (example_system ps) = []"
  by (simp_all add: example_system_def)

lemma sqrt_100: "sqrt 100 = 10"
  by (rule real_sqrt_unique) simp_all

subsection \<open>One update of a particle\<close>

lemma life_update: "life (update cfg win p) = life p - decay p"
  by (simp add: update_def Let_def)

lemma alpha_update: "alpha (update cfg win p) = max 0 (life p - decay p)"
  by (simp add: update_def Let_def)

lemma isDead_update: "isDead (update cfg win p) \<longleftrightarrow> life p - decay p \<le> 0"
  by (simp add: isDead_def alpha_update)

lemma decay_update: "decay (update cfg win p) = decay p"
  by (simp add: update_def Let_def split: prod.splits)

lemma life_decay_funpow_update:
  "life ((update cfg win ^^ n) p) = life p - real n * decay p
   \<and> decay ((update cfg win ^^ n) p) = decay p"
  by (induction n) (simp_all add: life_update decay_update algebra_simps)

lemma x_update:
  "x (update cfg win p) =
     (let x1 = x p + vx p * physics_friction cfg
      in if x1 < 0 \<or> x1 > innerWidth win then max 0 (min (innerWidth win) x1) else x1)"
  by (simp add: update_def Let_def split: prod.splits)

lemma y_update:
  "y (update cfg win p) =
     (let y1 = y p + (vy p + physics_gravity cfg) * physics_friction cfg
      in if y1 < 0 \<or> y1 > innerHeight win then max 0 (min (innerHeight win) y1) else y1)"
  by (simp add: update_def Let_def split: prod.splits)

lemma vx_update:
  "vx (update cfg win p) =
     (let vx1 = vx p * physics_friction cfg; x1 = x p + vx1
      in if x1 < 0 \<or> x1 > innerWidth win then vx1 * - physics_bounce cfg else vx1)"
  by (simp add: update_def Let_def split: prod.splits)

lemma vy_update:
  "vy (update cfg win p) =
     (let vy2 = (vy p + physics_gravity cfg) * physics_friction cfg; y1 = y p + vy2
      in if y1 < 0 \<or> y1 > innerHeight win then vy2 * - physics_bounce cfg else vy2)"
  by (simp add: update_def Let_def split: prod.splits)

lemma x_update_bounds:
  "0 \<le> innerWidth win \<Longrightarrow> 0 \<le> x (update cfg win p) \<and> x (update cfg win p) \<le> innerWidth win"
  by (simp add: x_update Let_def)

lemma y_update_bounds:
  "0 \<le> innerHeight win \<Longrightarrow> 0 \<le> y (update cfg win p) \<and> y (update cfg win p) \<le> innerHeight win"
  by (simp add: y_update Let_def)

lemma bounce_x:
  "x p + vx p * physics_friction cfg < 0 \<or> innerWidth win < x p + vx p * physics_friction cfg \<Longrightarrow>
     vx (update cfg win p) = - physics_bounce cfg * (vx p * physics_friction cfg)
     \<and> x (update cfg win p) = max 0 (min (innerWidth win) (x p + vx p * physics_friction cfg))"
  by (simp add: vx_update x_update Let_def)

lemma bounce_y:
  "y p + (vy p + physics_gravity cfg) * physics_friction cfg < 0
     \<or> innerHeight win < y p + (vy p + physics_gravity cfg) * physics_friction cfg \<Longrightarrow>
     vy (update cfg win p) = - physics_bounce cfg * ((vy p + physics_gravity cfg) * physics_friction cfg)
     \<and> y (update cfg win p)
         = max 0 (min (innerHeight win) (y p + (vy p + physics_gravity cfg) * physics_friction cfg))"
  by (simp add: vy_update y_update Let_def)

lemma abs_vx_update:
  assumes "0 \<le> physics_friction cfg" "physics_friction cfg \<le> 1"
    and "0 \<le> physics_bounce cfg" "physics_bounce cfg \<le> 1"
  shows "\<bar>vx (update cfg win p)\<bar> \<le> \<bar>vx p\<bar>"
proof -
  have 1: "\<bar>vx p * physics_friction cfg\<bar> \<le> \<bar>vx p\<bar>"
    using assms(1,2) by (simp add: abs_mult mult_left_le)
  have "\<bar>vx p * physics_friction cfg * physics_bounce cfg\<bar>
          \<le> \<bar>vx p * physics_friction cfg\<bar>"
    using assms(3,4) by (simp add: abs_mult mult_left_le)
  with 1 show ?thesis
    by (simp add: vx_update Let_def)
qed

lemma abs_vy_update:
  assumes "0 \<le> physics_friction cfg"
    and "0 \<le> physics_bounce cfg" "physics_bounce cfg \<le> 1"
    and "0 \<le> physics_gravity cfg"
  shows "\<bar>vy (update cfg win p)\<bar> \<le> (\<bar>vy p\<bar> + physics_gravity cfg) * physics_friction cfg"
proof -
  let ?v = "(vy p + physics_gravity cfg) * physics_friction cfg"
  have "\<bar>vy p + physics_gravity cfg\<bar> \<le> \<bar>vy p\<bar> + physics_gravity cfg"
    using assms(4) by simp
  then have 1: "\<bar>?v\<bar> \<le> (\<bar>vy p\<bar> + physics_gravity cfg) * physics_friction cfg"
    using assms(1) by (simp add: abs_mult mult_right_mono)
  have "\<bar>?v * physics_bounce cfg\<bar> \<le> \<bar>?v\<bar>"
    using assms(2,3) by (simp add: abs_mult[of ?v] mult_left_le)
  with 1 show ?thesis
    by (simp add: vy_update Let_def)
qed

lemma vy_bound_step:
  assumes "0 \<le> (g::real)" "0 \<le> (f::real)" "f < 1" "(v::real) \<le> max 1 (g * f / (1 - f))"
  shows "(v + g) * f \<le> max 1 (g * f / (1 - f))" (is "_ \<le> ?B")
proof -
  have pos: "0 < 1 - f" using assms(3) by simp
  have "g * f / (1 - f) \<le> ?B" by simp
  then have "g * f \<le> ?B * (1 - f)"
    using pos_divide_le_eq [OF pos, of "g * f" ?B] by blast
  moreover have "v * f \<le> ?B * f"
    using assms(2,4) by (intro mult_right_mono) auto
  ultimately have "v * f + g * f \<le> ?B * f + ?B * (1 - f)" by linarith
  also have "\<dots> = ?B" by (simp add: algebra_simps)
  finally show ?thesis by (simp add: algebra_simps)
qed

subsection \<open>The update pass\<close>

lemma updateParticles_filter_map:
  "updateParticles cfg win ps = filter (\<lambda>p. \<not> isDead p) (map (update cfg win) ps)"
  by (induction ps) (simp_all add: Let_def)

lemma updateParticles_map_filter:
  "updateParticles cfg win ps =
     map (update cfg win) (filter (\<lambda>p. \<not> isDead (update cfg win p)) ps)"
  by (simp add: updateParticles_filter_map filter_map comp_def)

lemma set_updateParticles_subset:
  "set (updateParticles cfg win ps) \<subseteq> update cfg win ` set ps"
  by (auto simp: updateParticles_filter_map)

lemma life_updateParticles:
  "p \<in> set (updateParticles cfg win ps) \<Longrightarrow> 0 < life p"
  by (auto simp: updateParticles_filter_map isDead_def alpha_update life_update)

lemma alive_updateParticles:
  "p \<in> set (updateParticles cfg win ps) \<Longrightarrow> \<not> isDead p"
  by (simp add: updateParticles_filter_map)

lemma updateParticles_none_dead:
  "\<forall>p \<in> set ps. 0 < life (update cfg win p) \<Longrightarrow>
     updateParticles cfg win ps = map (update cfg win) ps"
  by (induction ps) (auto simp: Let_def isDead_def alpha_update life_update)

lemma updateParticles_funpow_alive:
  assumes "\<forall>p \<in> set ps. 0 \<le> decay p \<and> 0 < life p - real n * decay p"
  shows "(updateParticles cfg win ^^ n) ps = map (update cfg win ^^ n) ps"
  using assms
proof (induction n)
  case 0
  then show ?case by simp
next
  case (Suc n)
  have "\<forall>p \<in> set ps. 0 \<le> decay p \<and> 0 < life p - real n * decay p"
  proof
    fix p assume "p \<in> set ps"
    with Suc.prems have "0 \<le> decay p" "0 < life p - real (Suc n) * decay p" by auto
    then show "0 \<le> decay p \<and> 0 < life p - real n * decay p"
      by (simp add: algebra_simps)
  qed
  then have IH: "(updateParticles cfg win ^^ n) ps = map (update cfg win ^^ n) ps"
    by (rule Suc.IH)
  have "\<forall>q \<in> set (map (update cfg win ^^ n) ps). 0 < life (update cfg win q)"
    using Suc.prems by (auto simp: life_update life_decay_funpow_update algebra_simps)
  then have "updateParticles cfg win (map (update cfg win ^^ n) ps)
               = map (update cfg win) (map (update cfg win ^^ n) ps)"
    by (rule updateParticles_none_dead)
  then show ?case by (simp add: IH)
qed

subsection \<open>The viewport\<close>

lemma in_viewport_after_pass:
  assumes "0 \<le> innerWidth win" "0 \<le> innerHeight win"
    and "p \<in> set (updateParticles cfg win ps)"
  shows "0 \<le> x p \<and> x p \<le> innerWidth win \<and> 0 \<le> y p \<and> y p \<le> innerHeight win"
proof -
  from assms(3) obtain q where "p = update cfg win q"
    using set_updateParticles_subset by blast
  then show ?thesis
    using x_update_bounds [OF assms(1)] y_update_bounds [OF assms(2)] by simp
qed

lemma new_Particle_sel:
  "x (new_Particle cfg rnd px py) = px"
  "y (new_Particle cfg rnd px py) = py"
  "vx (new_Particle cfg rnd px py) = (rnd 0 - 1 / 2) * 2"
  "vy (new_Particle cfg rnd px py) = (rnd 1 - 1 / 2) * 2"
  "life (new_Particle cfg rnd px py) = 1"
  "alpha (new_Particle cfg rnd px py) = 1"
  "decay (new_Particle cfg rnd px py) = 5 / 1000 + rnd 4 * (5 / 1000)"
  "connections (new_Particle cfg rnd px py) = []"
  by (simp_all add: new_Particle_def)

lemma initParticles_in_viewport:
  assumes "0 \<le> innerWidth win" "0 \<le> innerHeight win"
    and "\<forall>k. 0 \<le> rnd k \<and> rnd k < 1"
    and "p \<in> set (initParticles cfg win rnd)"
  shows "0 \<le> x p \<and> x p \<le> innerWidth win \<and> 0 \<le> y p \<and> y p \<le> innerHeight win"
proof -
  from assms(4) obtain i where
    p: "p = new_Particle cfg (\<lambda>k. rnd (7 * i + 2 + k))
              (rnd (7 * i) * innerWidth win) (rnd (7 * i + 1) * innerHeight win)"
    by (auto simp: initParticles_def)
  have a: "0 \<le> rnd (7 * i)" "rnd (7 * i) \<le> 1" "0 \<le> rnd (7 * i + 1)" "rnd (7 * i + 1) \<le> 1"
    using assms(3) by (auto intro: less_imp_le)
  have "rnd (7 * i) * innerWidth win \<le> 1 * innerWidth win"
    using a assms(1) by (intro mult_right_mono) auto
  moreover have "rnd (7 * i + 1) * innerHeight win \<le> 1 * innerHeight win"
    using a assms(2) by (intro mult_right_mono) auto
  ultimately show ?thesis
    using a assms(1,2) by (simp add: p new_Particle_sel)
qed

lemma initParticles_velocity:
  assumes "\<forall>k. 0 \<le> rnd k \<and> rnd k < 1"
    and "p \<in> set (initParticles cfg win rnd)"
  shows "\<bar>vx p\<bar> \<le> 1 \<and> \<bar>vy p\<bar> \<le> 1"
proof -
  from assms(2) obtain i where
    p: "p = new_Particle cfg (\<lambda>k. rnd (7 * i + 2 + k))
              (rnd (7 * i) * innerWidth win) (rnd (7 * i + 1) * innerHeight win)"
    by (auto simp: initParticles_def)
  have "\<And>k. 0 \<le> rnd k" "\<And>k. rnd k \<le> 1"
    using assms(1) by (auto intro: less_imp_le)
  then show ?thesis
    by (simp add: p new_Particle_sel abs_le_iff)
qed

lemma velocity_bound_pass:
  assumes cfg: "0 \<le> physics_gravity cfg" "0 \<le> physics_friction cfg"
      "physics_friction cfg < 1" "0 \<le> physics_bounce cfg" "physics_bounce cfg \<le> 1"
    and ps: "\<forall>q \<in> set ps. \<bar>vx q\<bar> \<le> 1
               \<and> \<bar>vy q\<bar> \<le> max 1 (physics_gravity cfg * physics_friction cfg
                                        / (1 - physics_friction cfg))"
    and p: "p \<in> set (updateParticles cfg win ps)"
  shows "\<bar>vx p\<bar> \<le> 1
         \<and> \<bar>vy p\<bar> \<le> max 1 (physics_gravity cfg * physics_friction cfg
                                  / (1 - physics_friction cfg))"
proof -
  from p obtain q where q: "q \<in> set ps" "p = update cfg win q"
    using set_updateParticles_subset by blast
  have "\<bar>vx p\<bar> \<le> \<bar>vx q\<bar>"
    unfolding q(2) using cfg by (intro abs_vx_update) auto
  moreover have "\<bar>vy p\<bar> \<le> (\<bar>vy q\<bar> + physics_gravity cfg) * physics_friction cfg"
    unfolding q(2) using cfg by (intro abs_vy_update) auto
  moreover have "(\<bar>vy q\<bar> + physics_gravity cfg) * physics_friction cfg
        \<le> max 1 (physics_gravity cfg * physics_friction cfg / (1 - physics_friction cfg))"
    using cfg ps q(1) by (intro vy_bound_step) auto
  ultimately show ?thesis using ps q(1) by force
qed

lemma velocity_bound_passes:
  assumes cfg: "0 \<le> physics_gravity cfg" "0 \<le> physics_friction cfg"
      "physics_friction cfg < 1" "0 \<le> physics_bounce cfg" "physics_bounce cfg \<le> 1"
    and ps: "\<forall>q \<in> set ps. \<bar>vx q\<bar> \<le> 1
               \<and> \<bar>vy q\<bar> \<le> max 1 (physics_gravity cfg * physics_friction cfg
                                        / (1 - physics_friction cfg))"
  shows "\<forall>p \<in> set ((updateParticles cfg win ^^ n) ps). \<bar>vx p\<bar> \<le> 1
               \<and> \<bar>vy p\<bar> \<le> max 1 (physics_gravity cfg * physics_friction cfg
                                        / (1 - physics_friction cfg))"
proof (induction n)
  case 0
  show ?case using ps by simp
next
  case (Suc n)
  show ?case
  proof
    fix p assume "p \<in> set ((updateParticles cfg win ^^ Suc n) ps)"
    then have "p \<in> set (updateParticles cfg win ((updateParticles cfg win ^^ n) ps))"
      by simp
    from velocity_bound_pass [OF cfg Suc.IH this]
    show "\<bar>vx p\<bar> \<le> 1
         \<and> \<bar>vy p\<bar> \<le> max 1 (physics_gravity cfg * physics_friction cfg
                                  / (1 - physics_friction cfg))" .
  qed
qed

lemma in_viewport_passes:
  assumes "0 \<le> innerWidth win" "0 \<le> innerHeight win"
    and "\<forall>q \<in> set ps. 0 \<le> x q \<and> x q \<le> innerWidth win \<and> 0 \<le> y q \<and> y q \<le> innerHeight win"
  shows "\<forall>p \<in> set ((updateParticles cfg win ^^ n) ps).
           0 \<le> x p \<and> x p \<le> innerWidth win \<and> 0 \<le> y p \<and> y p \<le> innerHeight win"
proof (cases n)
  case 0
  then show ?thesis using assms(3) by simp
next
  case (Suc m)
  show ?thesis
  proof
    fix p assume "p \<in> set ((updateParticles cfg win ^^ n) ps)"
    then have "p \<in> set (updateParticles cfg win ((updateParticles cfg win ^^ m) ps))"
      by (simp add: Suc)
    from in_viewport_after_pass [OF assms(1,2) this]
    show "0 \<le> x p \<and> x p \<le> innerWidth win \<and> 0 \<le> y p \<and> y p \<le> innerHeight win" .
  qed
qed

lemma in_viewport_Suc_passes:
  assumes "0 \<le> innerWidth win" "0 \<le> innerHeight win"
  shows "\<forall>p \<in> set ((updateParticles cfg win ^^ Suc n) ps).
           0 \<le> x p \<and> x p \<le> innerWidth win \<and> 0 \<le> y p \<and> y p \<le> innerHeight win"
proof
  fix p assume "p \<in> set ((updateParticles cfg win ^^ Suc n) ps)"
  then have "p \<in> set (updateParticles cfg win ((updateParticles cfg win ^^ n) ps))"
    by simp
  from in_viewport_after_pass [OF assms(1,2) this]
  show "0 \<le> x p \<and> x p \<le> innerWidth win \<and> 0 \<le> y p \<and> y p \<le> innerHeight win" .
qed

lemma length_initParticles: "length (initParticles cfg win rnd) = particleCount cfg"
  by (simp add: initParticles_def)

lemma first_pass_initParticles:
  assumes "\<forall>k. 0 \<le> rnd k \<and> rnd k < 1"
  shows "updateParticles cfg win (initParticles cfg win rnd)
           = map (update cfg win) (initParticles cfg win rnd)"
proof (rule updateParticles_none_dead, rule ballI)
  fix p assume "p \<in> set (initParticles cfg win rnd)"
  then obtain i where
    p: "p = new_Particle cfg (\<lambda>k. rnd (7 * i + 2 + k))
              (rnd (7 * i) * innerWidth win) (rnd (7 * i + 1) * innerHeight win)"
    by (auto simp: initParticles_def)
  have "rnd (7 * i + 2 + 4) < 1" using assms by blast
  then show "0 < life (update cfg win p)"
    by (simp add: p life_update new_Particle_sel)
qed

text \<open>
  Claim C2. In a viewport of width and height \<open>\<ge> 0\<close>, zero included, with every draw of
  \<open>Math.random()\<close> in \<open>[0, 1)\<close>: after any number \<open>n\<close> of update passes from the initial
  particles every particle is inside \<open>[0, width] \<times> [0, height]\<close>; from any particles
  at all the same holds after at least one pass. For friction in \<open>[0, 1)\<close>, bounce in
  \<open>[0, 1]\<close> and gravity \<open>\<ge> 0\<close> the velocity components of the particles stay bounded:
  \<open>|vx| \<le> 1\<close> and \<open>|vy| \<le> max 1 (gravity * friction / (1 - friction))\<close>. When the new
  position of a particle leaves the viewport on an axis, the velocity component on that
  axis is reversed and multiplied by the bounce coefficient and the position is clamped
  to the viewport.
\<close>

theorem C2_particles_stay_in_viewport:
  assumes "0 \<le> innerWidth win" and "0 \<le> innerHeight win"
    and "\<forall>k. 0 \<le> rnd k \<and> rnd k < 1"
  shows "(\<forall>p \<in> set ((updateParticles cfg win ^^ n) (initParticles cfg win rnd)).
            0 \<le> x p \<and> x p \<le> innerWidth win \<and> 0 \<le> y p \<and> y p \<le> innerHeight win)
       \<and> (\<forall>p \<in> set ((updateParticles cfg win ^^ Suc n) ps).
            0 \<le> x p \<and> x p \<le> innerWidth win \<and> 0 \<le> y p \<and> y p \<le> innerHeight win)
       \<and> (0 \<le> physics_gravity cfg \<and> 0 \<le> physics_friction cfg \<and> physics_friction cfg < 1
            \<and> 0 \<le> physics_bounce cfg \<and> physics_bounce cfg \<le> 1 \<longrightarrow>
          (\<forall>p \<in> set ((updateParticles cfg win ^^ n) (initParticles cfg win rnd)).
             \<bar>vx p\<bar> \<le> 1
             \<and> \<bar>vy p\<bar> \<le> max 1 (physics_gravity cfg * physics_friction cfg
                                      / (1 - physics_friction cfg))))
       \<and> (x q + vx q * physics_friction cfg < 0
            \<or> innerWidth win < x q + vx q * physics_friction cfg \<longrightarrow>
          vx (update cfg win q) = - physics_bounce cfg * (vx q * physics_friction cfg)
          \<and> x (update cfg win q)
              = max 0 (min (innerWidth win) (x q + vx q * physics_friction cfg)))
       \<and> (y q + (vy q + physics_gravity cfg) * physics_friction cfg < 0
            \<or> innerHeight win < y q + (vy q + physics_gravity cfg) * physics_friction cfg \<longrightarrow>
          vy (update cfg win q)
              = - physics_bounce cfg * ((vy q + physics_gravity cfg) * physics_friction cfg)
          \<and> y (update cfg win q)
              = max 0 (min (innerHeight win)
                         (y q + (vy q + physics_gravity cfg) * physics_friction cfg)))"
proof (intro conjI impI)
  show "\<forall>p \<in> set ((updateParticles cfg win ^^ n) (initParticles cfg win rnd)).
            0 \<le> x p \<and> x p \<le> innerWidth win \<and> 0 \<le> y p \<and> y p \<le> innerHeight win"
    using initParticles_in_viewport [OF assms]
    by (intro in_viewport_passes assms(1,2)) blast
next
  show "\<forall>p \<in> set ((updateParticles cfg win ^^ Suc n) ps).
            0 \<le> x p \<and> x p \<le> innerWidth win \<and> 0 \<le> y p \<and> y p \<le> innerHeight win"
    by (rule in_viewport_Suc_passes [OF assms(1,2)])
next
  assume "0 \<le> physics_gravity cfg \<and> 0 \<le> physics_friction cfg \<and> physics_friction cfg < 1
            \<and> 0 \<le> physics_bounce cfg \<and> physics_bounce cfg \<le> 1"
  moreover have "\<forall>q \<in> set (initParticles cfg win rnd). \<bar>vx q\<bar> \<le> 1
               \<and> \<bar>vy q\<bar> \<le> max 1 (physics_gravity cfg * physics_friction cfg
                                        / (1 - physics_friction cfg))"
    using initParticles_velocity [OF assms(3)] by fastforce
  ultimately show "\<forall>p \<in> set ((updateParticles cfg win ^^ n) (initParticles cfg win rnd)).
             \<bar>vx p\<bar> \<le> 1
             \<and> \<bar>vy p\<bar> \<le> max 1 (physics_gravity cfg * physics_friction cfg
                                      / (1 - physics_friction cfg))"
    by (intro velocity_bound_passes) auto
next
  assume "x q + vx q * physics_friction cfg < 0
            \<or> innerWidth win < x q + vx q * physics_friction cfg"
  then show "vx (update cfg win q) = - physics_bounce cfg * (vx q * physics_friction cfg)"
    and "x (update cfg win q)
              = max 0 (min (innerWidth win) (x q + vx q * physics_friction cfg))"
    using bounce_x by blast+
next
  assume "y q + (vy q + physics_gravity cfg) * physics_friction cfg < 0
            \<or> innerHeight win < y q + (vy q + physics_gravity cfg) * physics_friction cfg"
  then show "vy (update cfg win q)
              = - physics_bounce cfg * ((vy q + physics_gravity cfg) * physics_friction cfg)"
    and "y (update cfg win q)
              = max 0 (min (innerHeight win)
                         (y q + (vy q + physics_gravity cfg) * physics_friction cfg))"
    using bounce_y by blast+
qed

text \<open>
  With the configuration of the source: in the viewport of zero width and height the
  particle at rest at the origin stays at the origin and bounces, its vertical velocity
  becomes \<open>- 0.8 * (0.05 * 0.99)\<close>; in the viewport 800 by 600 with every draw
  \<open>0.5\<close> the 50 initial particles are all there after one pass, and the first of them is
  inside the viewport with \<open>|vx| \<le> 1\<close> and \<open>|vy| \<le> 4.95\<close>.
\<close>

theorem C2_particles_stay_in_viewport_witness:
  "updateParticles PARTICLE_CONFIG zero_window [example_particle 0 0 1 (1 / 200)]
     = [update PARTICLE_CONFIG zero_window (example_particle 0 0 1 (1 / 200))]
   \<and> x (update PARTICLE_CONFIG zero_window (example_particle 0 0 1 (1 / 200))) = 0
   \<and> y (update PARTICLE_CONFIG zero_window (example_particle 0 0 1 (1 / 200))) = 0
   \<and> vx (update PARTICLE_CONFIG zero_window (example_particle 0 0 1 (1 / 200))) = 0
   \<and> vy (update PARTICLE_CONFIG zero_window (example_particle 0 0 1 (1 / 200)))
       = - (8 / 10) * ((5 / 100) * (99 / 100))
   \<and> length ((updateParticles PARTICLE_CONFIG example_window ^^ 1)
               (initParticles PARTICLE_CONFIG example_window (\<lambda>k. 1 / 2))) = 50
   \<and> 0 \<le> y (hd ((updateParticles PARTICLE_CONFIG example_window ^^ 1)
               (initParticles PARTICLE_CONFIG example_window (\<lambda>k. 1 / 2))))
   \<and> y (hd ((updateParticles PARTICLE_CONFIG example_window ^^ 1)
               (initParticles PARTICLE_CONFIG example_window (\<lambda>k. 1 / 2)))) \<le> 600
   \<and> \<bar>vx (hd ((updateParticles PARTICLE_CONFIG example_window ^^ 1)
               (initParticles PARTICLE_CONFIG example_window (\<lambda>k. 1 / 2))))\<bar> \<le> 1
   \<and> \<bar>vy (hd ((updateParticles PARTICLE_CONFIG example_window ^^ 1)
               (initParticles PARTICLE_CONFIG example_window (\<lambda>k. 1 / 2))))\<bar> \<le> 495 / 100"
proof -
  have rnd: "\<forall>k. 0 \<le> (1 / 2 :: real) \<and> (1 / 2 :: real) < 1" by simp
  have alive: "updateParticles PARTICLE_CONFIG zero_window [example_particle 0 0 1 (1 / 200)]
     = [update PARTICLE_CONFIG zero_window (example_particle 0 0 1 (1 / 200))]"
    by (simp add: isDead_update)
  have cross: "y (example_particle 0 0 1 (1 / 200))
                 + (vy (example_particle 0 0 1 (1 / 200)) + physics_gravity PARTICLE_CONFIG)
                   * physics_friction PARTICLE_CONFIG < 0
               \<or> innerHeight zero_window
                 < y (example_particle 0 0 1 (1 / 200))
                   + (vy (example_particle 0 0 1 (1 / 200)) + physics_gravity PARTICLE_CONFIG)
                     * physics_friction PARTICLE_CONFIG"
    by (simp add: zero_window_def)
  from C2_particles_stay_in_viewport
         [where win = zero_window and rnd = "\<lambda>k. 1 / 2" and cfg = PARTICLE_CONFIG and n = 0
            and ps = "[example_particle 0 0 1 (1 / 200)]"
            and q = "example_particle 0 0 1 (1 / 200)", OF _ _ rnd]
  have zero: "(\<forall>p \<in> set ((updateParticles PARTICLE_CONFIG zero_window ^^ Suc 0)
                      [example_particle 0 0 1 (1 / 200)]).
            0 \<le> x p \<and> x p \<le> innerWidth zero_window \<and> 0 \<le> y p \<and> y p \<le> innerHeight zero_window)"
    and bounce: "vy (update PARTICLE_CONFIG zero_window (example_particle 0 0 1 (1 / 200)))
           = - physics_bounce PARTICLE_CONFIG
               * ((vy (example_particle 0 0 1 (1 / 200)) + physics_gravity PARTICLE_CONFIG)
                  * physics_friction PARTICLE_CONFIG)"
    using cross by (simp_all add: zero_window_def isDead_update)
  let ?L = "(updateParticles PARTICLE_CONFIG example_window ^^ 1)
               (initParticles PARTICLE_CONFIG example_window (\<lambda>k. 1 / 2))"
  have L: "?L = map (update PARTICLE_CONFIG example_window)
                  (initParticles PARTICLE_CONFIG example_window (\<lambda>k. 1 / 2))"
    using first_pass_initParticles [OF rnd] by simp
  then have len: "length ?L = 50" by (simp add: length_initParticles)
  then have "?L \<noteq> []" by auto
  then have mem: "hd ?L \<in> set ?L" by (rule hd_in_set)
  from C2_particles_stay_in_viewport
         [where win = example_window and rnd = "\<lambda>k. 1 / 2" and cfg = PARTICLE_CONFIG and n = 1
            and ps = "[]" and q = "example_particle 0 0 1 (1 / 200)", OF _ _ rnd]
  have "\<forall>p \<in> set ?L. 0 \<le> x p \<and> x p \<le> innerWidth example_window
                     \<and> 0 \<le> y p \<and> y p \<le> innerHeight example_window"
    and "\<forall>p \<in> set ?L. \<bar>vx p\<bar> \<le> 1
             \<and> \<bar>vy p\<bar> \<le> max 1 (physics_gravity PARTICLE_CONFIG * physics_friction PARTICLE_CONFIG
                                      / (1 - physics_friction PARTICLE_CONFIG))"
    by (simp_all add: example_window_def)
  with mem have "0 \<le> y (hd ?L)" "y (hd ?L) \<le> 600" "\<bar>vx (hd ?L)\<bar> \<le> 1" "\<bar>vy (hd ?L)\<bar> \<le> 495 / 100"
    by (auto simp: example_window_def)
  with zero bounce alive len show ?thesis
    by (simp add: zero_window_def vx_update Let_def)
qed

subsection \<open>The explosion and the population cap\<close>

lemma particles_createExplosion:
  "particles (createExplosion cfg rnd ex ey s) =
     (let ps = particles s @ map (explosionParticle cfg rnd ex ey) [0..<explosion_particleCount cfg]
      in if length ps > particleCount cfg * 2 then slice_last (particleCount cfg * 2) ps else ps)"
  by (simp add: createExplosion_def Let_def)

lemma createExplosion_drop_exact:
  "particles (createExplosion cfg rnd ex ey s) =
     drop (if 0 < particleCount cfg
              \<and> particleCount cfg * 2 < length (particles s) + explosion_particleCount cfg
           then length (particles s) + explosion_particleCount cfg - particleCount cfg * 2
           else 0)
       (particles s @ map (explosionParticle cfg rnd ex ey) [0..<explosion_particleCount cfg])"
  by (simp add: particles_createExplosion Let_def slice_last_def)

text \<open>
  Claim C3. An explosion creates \<open>n\<close> particles (the configured explosion count) and
  appends them to the \<open>current\<close> particles of the field. With a positive baseline count
  and the cap twice that count: when \<open>current + n\<close> is at most the cap the field holds
  the old particles followed by the new ones, \<open>current + n\<close> in all; otherwise it holds
  \<open>min (current + n) cap\<close> particles, and they are what is left of the old particles
  followed by the new ones after the first \<open>current + n - cap\<close> of them are dropped.
\<close>

theorem C3_explosion_cap:
  assumes "0 < particleCount cfg"
  shows "let n = explosion_particleCount cfg;
             cap = particleCount cfg * 2;
             current = length (particles s);
             new = map (explosionParticle cfg rnd ex ey) [0..<n];
             ps' = particles (createExplosion cfg rnd ex ey s)
         in length new = n
            \<and> (current + n \<le> cap \<longrightarrow>
                 length ps' = current + n \<and> ps' = particles s @ new)
            \<and> (cap < current + n \<longrightarrow>
                 length ps' = min (current + n) cap
                 \<and> ps' = drop (current + n - cap) (particles s @ new))"
  using assms by (auto simp add: particles_createExplosion Let_def slice_last_def)

text \<open>
  With the configuration of the source (cap 100, 20 particles per explosion): a field of
  90 particles ends with 100, the first 10 dropped; a field of 50 ends with 70.
\<close>

theorem C3_explosion_cap_witness:
  "length (particles (createExplosion PARTICLE_CONFIG (\<lambda>k. 1 / 2) 400 300
             (example_system (replicate 90 (example_particle 10 10 1 (1 / 200)))))) = 100
   \<and> particles (createExplosion PARTICLE_CONFIG (\<lambda>k. 1 / 2) 400 300
             (example_system (replicate 90 (example_particle 10 10 1 (1 / 200)))))
     = drop 10 (replicate 90 (example_particle 10 10 1 (1 / 200))
                @ map (explosionParticle PARTICLE_CONFIG (\<lambda>k. 1 / 2) 400 300) [0..<20])
   \<and> length (particles (createExplosion PARTICLE_CONFIG (\<lambda>k. 1 / 2) 400 300
             (example_system (replicate 50 (example_particle 10 10 1 (1 / 200)))))) = 70"
  using C3_explosion_cap [of PARTICLE_CONFIG
          "example_system (replicate 90 (example_particle 10 10 1 (1 / 200)))" "\<lambda>k. 1 / 2" 400 300]
        C3_explosion_cap [of PARTICLE_CONFIG
          "example_system (replicate 50 (example_particle 10 10 1 (1 / 200)))" "\<lambda>k. 1 / 2" 400 300]
  by (simp add: PARTICLE_CONFIG_def Let_def)

subsection \<open>The lifetime of the particles of an explosion\<close>

lemma explosionParticle_sel:
  "x (explosionParticle cfg rnd ex ey i) = ex"
  "y (explosionParticle cfg rnd ex ey i) = ey"
  "vx (explosionParticle cfg rnd ex ey i)
     = cos (pi * 2 * real i / real (explosion_particleCount cfg))
       * (explosion_speed cfg * (1 / 2 + rnd (6 * i) * (1 / 2)))"
  "vy (explosionParticle cfg rnd ex ey i)
     = sin (pi * 2 * real i / real (explosion_particleCount cfg))
       * (explosion_speed cfg * (1 / 2 + rnd (6 * i) * (1 / 2)))"
  "life (explosionParticle cfg rnd ex ey i) = 1"
  "decay (explosionParticle cfg rnd ex ey i) = 1 / explosion_lifetime cfg"
  by (simp_all add: explosionParticle_def Let_def new_Particle_def)

lemma burst_alive:
  assumes "0 < explosion_lifetime cfg" and "real n < explosion_lifetime cfg"
  shows "(updateParticles cfg win ^^ n) (map (explosionParticle cfg rnd ex ey) [0..<m])
           = map (update cfg win ^^ n) (map (explosionParticle cfg rnd ex ey) [0..<m])"
proof (rule updateParticles_funpow_alive, rule ballI)
  fix p assume "p \<in> set (map (explosionParticle cfg rnd ex ey) [0..<m])"
  then obtain i where p: "p = explosionParticle cfg rnd ex ey i" by auto
  show "0 \<le> decay p \<and> 0 < life p - real n * decay p"
    using assms by (simp add: p explosionParticle_sel less_imp_le)
qed

lemma burst_life:
  assumes "0 < explosion_lifetime cfg" and "real n < explosion_lifetime cfg"
  shows "map life ((updateParticles cfg win ^^ n) (map (explosionParticle cfg rnd ex ey) [0..<m]))
           = replicate m (1 - real n / explosion_lifetime cfg)"
  by (simp add: burst_alive [OF assms] comp_def life_decay_funpow_update explosionParticle_sel
        map_replicate_const)

lemma burst_removed:
  assumes "explosion_lifetime cfg = real (Suc n)"
  shows "(updateParticles cfg win ^^ Suc n) (map (explosionParticle cfg rnd ex ey) [0..<m]) = []"
proof -
  have a: "0 < explosion_lifetime cfg" "real n < explosion_lifetime cfg"
    using assms by simp_all
  have "(updateParticles cfg win ^^ Suc n) (map (explosionParticle cfg rnd ex ey) [0..<m])
          = updateParticles cfg win
              (map (update cfg win ^^ n) (map (explosionParticle cfg rnd ex ey) [0..<m]))"
    by (simp add: burst_alive [OF a])
  also have "\<dots> = []"
    by (simp add: updateParticles_filter_map filter_empty_conv isDead_update
          life_decay_funpow_update explosionParticle_sel assms field_simps)
  finally show ?thesis .
qed

lemma burst_on_empty_field:
  "particles (createExplosion PARTICLE_CONFIG rnd ex ey (example_system []))
     = map (explosionParticle PARTICLE_CONFIG rnd ex ey) [0..<20]"
  by (simp add: particles_createExplosion Let_def)

subsection \<open>Resizing\<close>

lemma particles_handleResize: "particles (handleResize win s) = particles s"
  by (simp add: handleResize_def)

text \<open>
  Claim C8, as stated, fails: \<open>handleResize\<close> does not move any particle. A particle at
  \<open>x = 500\<close> is still there after a resize to a viewport 100 wide.
\<close>

theorem C8_resize_clamps_counterexample:
  "\<not> (\<forall>p \<in> set (particles (handleResize narrow_window
                       (example_system [example_particle 500 10 1 (1 / 200)]))).
         0 \<le> x p \<and> x p \<le> innerWidth narrow_window
         \<and> 0 \<le> y p \<and> y p \<le> innerHeight narrow_window)"
  by (simp add: particles_handleResize narrow_window_def)

text \<open>
  Claim C8, amended. \<open>handleResize\<close> sets the size of the canvas to the size of the
  viewport and leaves every particle as it is, inside the new bounds or not. The
  particles are clamped into the bounds of the viewport by the next update pass.
\<close>

theorem C8_resize_keeps_particles:
  "particles (handleResize win s) = particles s
   \<and> canvas_width (handleResize win s) = innerWidth win
   \<and> canvas_height (handleResize win s) = innerHeight win
   \<and> (0 \<le> innerWidth win \<and> 0 \<le> innerHeight win \<longrightarrow>
        (\<forall>p \<in> set (updateParticles cfg win (particles (handleResize win s))).
           0 \<le> x p \<and> x p \<le> innerWidth win \<and> 0 \<le> y p \<and> y p \<le> innerHeight win))"
  using in_viewport_after_pass [of win _ cfg "particles s"]
  by (simp add: handleResize_def)

text \<open>
  The particle at \<open>x = 500\<close> is unchanged by the resize to width 100 and is at
  \<open>x = 100\<close> after the next update.
\<close>

theorem C8_resize_keeps_particles_witness:
  "particles (handleResize narrow_window (example_system [example_particle 500 10 1 (1 / 200)]))
     = [example_particle 500 10 1 (1 / 200)]
   \<and> x (update PARTICLE_CONFIG narrow_window (example_particle 500 10 1 (1 / 200))) = 100"
  using C8_resize_keeps_particles [where win = narrow_window
          and s = "example_system [example_particle 500 10 1 (1 / 200)]"
          and cfg = PARTICLE_CONFIG]
  by (simp add: narrow_window_def x_update isDead_update)

subsection \<open>Pointer forces\<close>

lemma sqrt_one_plus_quot:
  fixes a b :: real
  assumes "a \<noteq> 0"
  shows "sqrt (1 + (b / a)\<^sup>2) = sqrt (a * a + b * b) / \<bar>a\<bar>"
proof -
  have "1 + (b / a)\<^sup>2 = (a * a + b * b) / (a * a)"
    using assms by (simp add: power2_eq_square field_simps)
  then have "sqrt (1 + (b / a)\<^sup>2) = sqrt (a * a + b * b) / sqrt (a * a)"
    by (simp add: real_sqrt_divide)
  then show ?thesis by simp
qed

lemma sqrt_sum_pos:
  fixes a b :: real
  assumes "a \<noteq> 0 \<or> b \<noteq> 0"
  shows "0 < sqrt (a * a + b * b)"
proof -
  have "0 < a * a + b * b"
    using assms by (metis add_pos_nonneg add_nonneg_pos mult_eq_0_iff zero_le_square
        less_le not_less)
  then show ?thesis by simp
qed

lemma cos_arctan_quot:
  fixes a b :: real
  assumes "a \<noteq> 0"
  shows "cos (arctan (b / a)) = \<bar>a\<bar> / sqrt (a * a + b * b)"
  using assms by (simp add: cos_arctan sqrt_one_plus_quot)

lemma sin_arctan_quot:
  fixes a b :: real
  assumes "a \<noteq> 0"
  shows "sin (arctan (b / a)) = (b / a) * \<bar>a\<bar> / sqrt (a * a + b * b)"
  using assms by (simp add: sin_arctan sqrt_one_plus_quot)

lemma cos_Math_atan2:
  assumes "a \<noteq> 0 \<or> b \<noteq> 0"
  shows "cos (Math_atan2 b a) = a / sqrt (a * a + b * b)"
proof -
  consider "0 < a" | "a < 0" | "a = 0" "0 < b" | "a = 0" "b < 0"
    using assms by fastforce
  then show ?thesis
  proof cases
    case 1
    then show ?thesis by (simp add: Math_atan2_def cos_arctan_quot)
  next
    case 2
    then show ?thesis by (simp add: Math_atan2_def cos_arctan_quot cos_add cos_diff)
  next
    case 3
    then show ?thesis by (simp add: Math_atan2_def)
  next
    case 4
    then show ?thesis by (simp add: Math_atan2_def)
  qed
qed

lemma sin_Math_atan2:
  assumes "a \<noteq> 0 \<or> b \<noteq> 0"
  shows "sin (Math_atan2 b a) = b / sqrt (a * a + b * b)"
proof -
  consider "0 < a" | "a < 0" | "a = 0" "0 < b" | "a = 0" "b < 0"
    using assms by fastforce
  then show ?thesis
  proof cases
    case 1
    then show ?thesis by (simp add: Math_atan2_def sin_arctan_quot)
  next
    case 2
    then show ?thesis by (simp add: Math_atan2_def sin_arctan_quot sin_add sin_diff)
  next
    case 3
    then show ?thesis by (simp add: Math_atan2_def)
  next
    case 4
    then show ?thesis by (simp add: Math_atan2_def)
  qed
qed

text \<open>
  The force on a particle that is not at the pointer itself: in both branches it is a
  multiple \<open>k\<close> of the unit vector from the particle to the pointer, and only the
  velocity changes.
\<close>

lemma mouseForce_towards_pointer:
  assumes "mx \<noteq> x p \<or> my \<noteq> y p"
  shows "let dx = mx - x p;
             dy = my - y p;
             d = sqrt (dx * dx + dy * dy);
             k = (if d < mouse_repulsionRadius cfg
                  then mouse_repulsionForce cfg * (1 - d / mouse_repulsionRadius cfg)
                  else if d < mouse_attractionRadius cfg
                  then mouse_attractionForce cfg * (d / mouse_attractionRadius cfg)
                  else 0)
         in mouseForce cfg mx my p = p\<lparr>vx := vx p + dx / d * k, vy := vy p + dy / d * k\<rparr>"
proof -
  have nz: "mx - x p \<noteq> 0 \<or> my - y p \<noteq> 0" using assms by simp
  show ?thesis
    by (simp add: mouseForce_def Let_def applyForce_def
          cos_Math_atan2 [OF nz] sin_Math_atan2 [OF nz])
qed

lemma mouseForce_other_fields:
  "(mouseForce cfg mx my p)\<lparr>vx := 0, vy := 0\<rparr> = p\<lparr>vx := 0, vy := 0\<rparr>"
  by (simp add: mouseForce_def Let_def applyForce_def)

lemma applyMouseForces_other_fields:
  "map (\<lambda>p. p\<lparr>vx := 0, vy := 0\<rparr>) (particles (applyMouseForces cfg s))
     = map (\<lambda>p. p\<lparr>vx := 0, vy := 0\<rparr>) (particles s)"
  by (simp add: applyMouseForces_def mouseForce_other_fields comp_def)

lemma Math_atan2_x_axis: "0 < a \<Longrightarrow> Math_atan2 0 a = 0"
  by (simp add: Math_atan2_def)

text \<open>
  Claim C1 at a concrete input, with the configuration of the source (repulsion radius
  50, repulsion force 0.1): a particle at rest at the origin with the pointer at
  \<open>(10, 0)\<close>, inside the repulsion radius, receives the velocity \<open>(0.08, 0)\<close>, which
  points to the pointer and not away from it; its position is unchanged.
\<close>

theorem C1_repulsion_towards_pointer:
  "vx (particles (applyMouseForces PARTICLE_CONFIG
         (pointer_at 10 0 (example_system [example_particle 0 0 1 (1 / 200)]))) ! 0) = 8 / 100
   \<and> vy (particles (applyMouseForces PARTICLE_CONFIG
         (pointer_at 10 0 (example_system [example_particle 0 0 1 (1 / 200)]))) ! 0) = 0
   \<and> x (particles (applyMouseForces PARTICLE_CONFIG
         (pointer_at 10 0 (example_system [example_particle 0 0 1 (1 / 200)]))) ! 0) = 0
   \<and> y (particles (applyMouseForces PARTICLE_CONFIG
         (pointer_at 10 0 (example_system [example_particle 0 0 1 (1 / 200)]))) ! 0) = 0"
  by (simp add: applyMouseForces_def pointer_at_def example_system_def mouseForce_def
        applyForce_def Let_def sqrt_100 Math_atan2_x_axis)

subsection \<open>Connections\<close>

lemma connectPair_distanceBetween:
  "connectPair cfg i j ps =
     (if distanceBetween (ps ! i) (ps ! j) < connectionDistance cfg
      then ps[i := (ps ! i)\<lparr>connections :=
                     connections (ps ! i) @ [(j, distanceBetween (ps ! i) (ps ! j))]\<rparr>]
      else ps)"
  by (simp add: connectPair_def distanceBetween_def Let_def)

lemma distanceBetween_connections [simp]:
  "distanceBetween (p\<lparr>connections := c\<rparr>) q = distanceBetween p q"
  "distanceBetween p (q\<lparr>connections := c\<rparr>) = distanceBetween p q"
  by (simp_all add: distanceBetween_def)

lemma distanceBetween_commute: "distanceBetween p q = distanceBetween q p"
proof -
  have "(x p - x q) * (x p - x q) = (x q - x p) * (x q - x p)"
       "(y p - y q) * (y p - y q) = (y q - y p) * (y q - y p)"
    by (simp_all add: algebra_simps)
  then show ?thesis by (simp add: distanceBetween_def Let_def)
qed

lemma distanceBetween_same_y: "y p = y q \<Longrightarrow> distanceBetween p q = \<bar>x p - x q\<bar>"
  by (simp add: distanceBetween_def Let_def)

text \<open>The inner loop for the index \<open>i\<close> over the indices \<open>js\<close>.\<close>

lemma inner_loop:
  assumes "i < length ps" and "i \<notin> set js"
  shows "fold (\<lambda>j ps. connectPair cfg i j ps) js ps =
           ps[i := (ps ! i)\<lparr>connections :=
                     connections (ps ! i)
                     @ map (\<lambda>j. (j, distanceBetween (ps ! i) (ps ! j)))
                         (filter (\<lambda>j. distanceBetween (ps ! i) (ps ! j) < connectionDistance cfg)
                            js)\<rparr>]"
  using assms
proof (induction js arbitrary: ps)
  case Nil
  then show ?case by simp
next
  case (Cons j js)
  from Cons.prems have ji: "j \<noteq> i" and js: "i \<notin> set js" by auto
  show ?case
  proof (cases "distanceBetween (ps ! i) (ps ! j) < connectionDistance cfg")
    case False
    then show ?thesis
      using Cons.IH [OF Cons.prems(1) js] by (simp add: connectPair_distanceBetween)
  next
    case True
    let ?ps1 = "ps[i := (ps ! i)\<lparr>connections :=
                     connections (ps ! i) @ [(j, distanceBetween (ps ! i) (ps ! j))]\<rparr>]"
    have len: "i < length ?ps1" using Cons.prems(1) by simp
    have other: "\<And>k. k \<in> set js \<Longrightarrow> ?ps1 ! k = ps ! k"
      using js by (metis nth_list_update_neq)
    have filt: "filter (\<lambda>k. distanceBetween (?ps1 ! i) (?ps1 ! k) < connectionDistance cfg) js
                = filter (\<lambda>k. distanceBetween (ps ! i) (ps ! k) < connectionDistance cfg) js"
      using Cons.prems(1) other by (intro filter_cong) auto
    have mp: "map (\<lambda>k. (k, distanceBetween (?ps1 ! i) (?ps1 ! k)))
                (filter (\<lambda>k. distanceBetween (ps ! i) (ps ! k) < connectionDistance cfg) js)
              = map (\<lambda>k. (k, distanceBetween (ps ! i) (ps ! k)))
                (filter (\<lambda>k. distanceBetween (ps ! i) (ps ! k) < connectionDistance cfg) js)"
      using Cons.prems(1) other by (intro map_cong) auto
    have "fold (\<lambda>j ps. connectPair cfg i j ps) (j # js) ps
            = fold (\<lambda>j ps. connectPair cfg i j ps) js ?ps1"
      using True by (simp add: connectPair_distanceBetween)
    also have "\<dots> = ?ps1[i := (?ps1 ! i)\<lparr>connections :=
                     connections (?ps1 ! i)
                     @ map (\<lambda>j. (j, distanceBetween (?ps1 ! i) (?ps1 ! j)))
                         (filter (\<lambda>j. distanceBetween (?ps1 ! i) (?ps1 ! j) < connectionDistance cfg)
                            js)\<rparr>]"
      by (rule Cons.IH [OF len js])
    also have "\<dots> = ps[i := (ps ! i)\<lparr>connections :=
                     connections (ps ! i)
                     @ map (\<lambda>j. (j, distanceBetween (ps ! i) (ps ! j)))
                         (filter (\<lambda>j. distanceBetween (ps ! i) (ps ! j) < connectionDistance cfg)
                            (j # js))\<rparr>]"
      unfolding filt mp using True Cons.prems(1) by simp
    finally show ?thesis .
  qed
qed

lemma distanceBetween_nth_update:
  "i < length ps \<Longrightarrow>
     distanceBetween (ps[i := (ps ! i)\<lparr>connections := c\<rparr>] ! a)
                     (ps[i := (ps ! i)\<lparr>connections := c\<rparr>] ! b)
       = distanceBetween (ps ! a) (ps ! b)"
  by (simp add: nth_list_update)

lemma connectionsOf_update:
  "i < length ps \<Longrightarrow>
     connectionsOf cfg (ps[i := (ps ! i)\<lparr>connections := c\<rparr>]) k = connectionsOf cfg ps k"
  by (simp add: connectionsOf_def distanceBetween_nth_update)

lemma inner_loop_connectionsOf:
  assumes "i < length ps"
  shows "fold (\<lambda>j ps. connectPair cfg i j ps) [Suc i..<length ps] ps =
           ps[i := (ps ! i)\<lparr>connections := connections (ps ! i) @ connectionsOf cfg ps i\<rparr>]"
  using inner_loop [OF assms, of "[Suc i..<length ps]" cfg]
  by (simp add: connectionsOf_def)

lemma outer_loop:
  assumes "distinct is" and "\<forall>i \<in> set is. i < length ps"
  shows "length (fold (\<lambda>i ps. fold (\<lambda>j ps. connectPair cfg i j ps) [Suc i..<length ps] ps) is ps)
           = length ps
         \<and> (\<forall>k < length ps.
              fold (\<lambda>i ps. fold (\<lambda>j ps. connectPair cfg i j ps) [Suc i..<length ps] ps) is ps ! k
              = (if k \<in> set is
                 then (ps ! k)\<lparr>connections := connections (ps ! k) @ connectionsOf cfg ps k\<rparr>
                 else ps ! k))"
  using assms
proof (induction "is" arbitrary: ps)
  case Nil
  then show ?case by simp
next
  case (Cons i "is")
  let ?F = "\<lambda>i ps. fold (\<lambda>j ps. connectPair cfg i j ps) [Suc i..<length ps] ps"
  let ?ps1 = "ps[i := (ps ! i)\<lparr>connections := connections (ps ! i) @ connectionsOf cfg ps i\<rparr>]"
  from Cons.prems have i: "i < length ps" and notin: "i \<notin> set is" and d: "distinct is"
    and rest: "\<forall>i \<in> set is. i < length ?ps1" by auto
  have step: "?F i ps = ?ps1" by (rule inner_loop_connectionsOf [OF i])
  have IH: "length (fold ?F is ?ps1) = length ?ps1
         \<and> (\<forall>k < length ?ps1.
              fold ?F is ?ps1 ! k
              = (if k \<in> set is
                 then (?ps1 ! k)\<lparr>connections := connections (?ps1 ! k) @ connectionsOf cfg ?ps1 k\<rparr>
                 else ?ps1 ! k))"
    by (rule Cons.IH [OF d rest])
  have fold_eq: "fold ?F (i # is) ps = fold ?F is ?ps1" using step by simp
  show ?case
  proof (intro conjI allI impI)
    show "length (fold ?F (i # is) ps) = length ps"
      using IH fold_eq by simp
  next
    fix k assume k: "k < length ps"
    then have k1: "k < length ?ps1" by simp
    have "fold ?F (i # is) ps ! k
            = (if k \<in> set is
                 then (?ps1 ! k)\<lparr>connections := connections (?ps1 ! k) @ connectionsOf cfg ?ps1 k\<rparr>
                 else ?ps1 ! k)"
      using IH k1 fold_eq by simp
    also have "\<dots> = (if k \<in> set (i # is)
                 then (ps ! k)\<lparr>connections := connections (ps ! k) @ connectionsOf cfg ps k\<rparr>
                 else ps ! k)"
      using i k notin by (auto simp: connectionsOf_update nth_list_update)
    finally show "fold ?F (i # is) ps ! k
            = (if k \<in> set (i # is)
                 then (ps ! k)\<lparr>connections := connections (ps ! k) @ connectionsOf cfg ps k\<rparr>
                 else ps ! k)" .
  qed
qed

lemma connectionsOf_cleared:
  "connectionsOf cfg (map (\<lambda>p. p\<lparr>connections := []\<rparr>) ps) k = connectionsOf cfg ps k"
proof -
  have "\<And>j. j \<in> set [Suc k..<length ps] \<Longrightarrow> k < length ps \<and> j < length ps" by auto
  then show ?thesis
    unfolding connectionsOf_def
    by (auto intro!: map_cong filter_cong simp: length_map)
qed

lemma particles_updateConnections:
  "particles (updateConnections cfg s) =
     map (\<lambda>k. (particles s ! k)\<lparr>connections := connectionsOf cfg (particles s) k\<rparr>)
       [0..<length (particles s)]"
proof -
  let ?ps = "particles s"
  let ?cl = "map (\<lambda>p. p\<lparr>connections := []\<rparr>) ?ps"
  let ?F = "\<lambda>i ps. fold (\<lambda>j ps. connectPair cfg i j ps) [Suc i..<length ps] ps"
  have o: "length (fold ?F [0..<length ?cl] ?cl) = length ?cl
         \<and> (\<forall>k < length ?cl.
              fold ?F [0..<length ?cl] ?cl ! k
              = (if k \<in> set [0..<length ?cl]
                 then (?cl ! k)\<lparr>connections := connections (?cl ! k) @ connectionsOf cfg ?cl k\<rparr>
                 else ?cl ! k))"
    by (rule outer_loop) auto
  have "fold ?F [0..<length ?cl] ?cl =
          map (\<lambda>k. (?ps ! k)\<lparr>connections := connectionsOf cfg ?ps k\<rparr>) [0..<length ?ps]"
  proof (rule nth_equalityI)
    show "length (fold ?F [0..<length ?cl] ?cl)
            = length (map (\<lambda>k. (?ps ! k)\<lparr>connections := connectionsOf cfg ?ps k\<rparr>) [0..<length ?ps])"
      using o by simp
  next
    fix k assume "k < length (fold ?F [0..<length ?cl] ?cl)"
    then have k: "k < length ?ps" using o by simp
    then show "fold ?F [0..<length ?cl] ?cl ! k
            = map (\<lambda>k. (?ps ! k)\<lparr>connections := connectionsOf cfg ?ps k\<rparr>) [0..<length ?ps] ! k"
      using o by (simp add: connectionsOf_cleared)
  qed
  then show ?thesis by (simp add: updateConnections_def Let_def)
qed

lemma set_connectionsOf:
  "(k, e) \<in> set (connectionsOf cfg ps i) \<longleftrightarrow>
     i < k \<and> k < length ps \<and> e = distanceBetween (ps ! i) (ps ! k)
     \<and> distanceBetween (ps ! i) (ps ! k) < connectionDistance cfg"
  by (auto simp: connectionsOf_def)

lemma distinct_connectionsOf: "distinct (map fst (connectionsOf cfg ps i))"
proof -
  have "map fst (connectionsOf cfg ps i)
          = filter (\<lambda>j. distanceBetween (ps ! i) (ps ! j) < connectionDistance cfg)
              [Suc i..<length ps]"
    by (simp add: connectionsOf_def comp_def)
  then show ?thesis by simp
qed

lemma nth_updateConnections:
  "i < length (particles s) \<Longrightarrow>
     particles (updateConnections cfg s) ! i
       = (particles s ! i)\<lparr>connections := connectionsOf cfg (particles s) i\<rparr>"
  by (simp add: particles_updateConnections)

lemma length_updateConnections:
  "length (particles (updateConnections cfg s)) = length (particles s)"
  by (simp add: particles_updateConnections)

lemma updateConnections_other_fields:
  "map (\<lambda>p. p\<lparr>connections := []\<rparr>) (particles (updateConnections cfg s))
     = map (\<lambda>p. p\<lparr>connections := []\<rparr>) (particles s)"
  by (rule nth_equalityI) (simp_all add: length_updateConnections nth_updateConnections)

text \<open>
  Claim C5, as stated, fails: a connection is recorded in one direction only. Of two
  particles 10 apart, the first holds the connection to the second, and the second holds
  none.
\<close>

theorem C5_connections_symmetric_counterexample:
  "connections (particles (updateConnections PARTICLE_CONFIG
       (example_system [example_particle 0 0 1 (1 / 200), example_particle 10 0 1 (1 / 200)])) ! 0)
     = [(1, 10)]
   \<and> connections (particles (updateConnections PARTICLE_CONFIG
       (example_system [example_particle 0 0 1 (1 / 200), example_particle 10 0 1 (1 / 200)])) ! 1)
     = []"
  by (simp add: nth_updateConnections connectionsOf_def distanceBetween_def sqrt_100)

text \<open>
  Claim C5, amended. \<open>updateConnections\<close> changes the connection lists only, and records
  every pair of particles once, on the earlier particle: the list of the particle at
  index \<open>i\<close> names every index once at most, and it holds the entry \<open>(k, e)\<close> exactly
  when \<open>k\<close> is a later index, \<open>e\<close> is the distance of the two particles and \<open>e\<close> is
  strictly less than the connection distance. So the later particle holds no entry for
  the earlier one. The distance itself is the same in both directions.
\<close>

theorem C5_connections_one_per_pair:
  "length (particles (updateConnections cfg s)) = length (particles s)
   \<and> (\<forall>i < length (particles s).
        particles (updateConnections cfg s) ! i
          = (particles s ! i)\<lparr>connections := connectionsOf cfg (particles s) i\<rparr>
        \<and> distinct (map fst (connections (particles (updateConnections cfg s) ! i)))
        \<and> (\<forall>k e. (k, e) \<in> set (connections (particles (updateConnections cfg s) ! i)) \<longleftrightarrow>
                   i < k \<and> k < length (particles s)
                   \<and> e = distanceBetween (particles s ! i) (particles s ! k)
                   \<and> distanceBetween (particles s ! i) (particles s ! k) < connectionDistance cfg))
   \<and> distanceBetween p q = distanceBetween q p"
  by (simp add: length_updateConnections nth_updateConnections distinct_connectionsOf
        set_connectionsOf distanceBetween_commute [of p q])

text \<open>
  Of three particles at \<open>x = 0\<close>, \<open>10\<close> and \<open>500\<close> the first holds one connection, to the
  second, with distance 10; the second holds none.
\<close>

theorem C5_connections_one_per_pair_witness:
  "length (particles (updateConnections PARTICLE_CONFIG
       (example_system [example_particle 0 0 1 (1 / 200), example_particle 10 0 1 (1 / 200),
                        example_particle 500 0 1 (1 / 200)]))) = 3
   \<and> connections (particles (updateConnections PARTICLE_CONFIG
       (example_system [example_particle 0 0 1 (1 / 200), example_particle 10 0 1 (1 / 200),
                        example_particle 500 0 1 (1 / 200)])) ! 0) = [(1, 10)]
   \<and> connections (particles (updateConnections PARTICLE_CONFIG
       (example_system [example_particle 0 0 1 (1 / 200), example_particle 10 0 1 (1 / 200),
                        example_particle 500 0 1 (1 / 200)])) ! 1) = []
   \<and> distanceBetween (example_particle 0 0 1 (1 / 200)) (example_particle 10 0 1 (1 / 200)) = 10
   \<and> distanceBetween (example_particle 10 0 1 (1 / 200)) (example_particle 0 0 1 (1 / 200)) = 10"
  using C5_connections_one_per_pair
          [where cfg = PARTICLE_CONFIG
             and s = "example_system [example_particle 0 0 1 (1 / 200),
                        example_particle 10 0 1 (1 / 200), example_particle 500 0 1 (1 / 200)]"
             and p = "example_particle 0 0 1 (1 / 200)"
             and q = "example_particle 10 0 1 (1 / 200)"]
  by (simp add: connectionsOf_def distanceBetween_same_y)

subsection \<open>Order of the particles\<close>

text \<open>
  Claim C10. The operations keep the particles in their order. The update pass keeps
  the particles that are alive after their update, in the order they had. An explosion
  creates as many particles as the configuration says and puts them behind the old
  ones; the field is then that list without its first \<open>k\<close> entries, where \<open>k\<close> is the
  excess over the cap (twice the baseline count) when the baseline count is positive
  and the cap is exceeded, and \<open>0\<close> otherwise. The pointer forces change the two
  velocity fields only, and the connection pass the connection lists only, particle by
  particle at the same index; a resize changes no particle.
\<close>

theorem C10_order_preserved:
  "updateParticles cfg win ps
     = map (update cfg win) (filter (\<lambda>p. \<not> isDead (update cfg win p)) ps)
   \<and> particles (createExplosion cfg rnd ex ey s)
     = drop (if 0 < particleCount cfg
                \<and> particleCount cfg * 2 < length (particles s) + explosion_particleCount cfg
             then length (particles s) + explosion_particleCount cfg - particleCount cfg * 2
             else 0)
         (particles s @ map (explosionParticle cfg rnd ex ey) [0..<explosion_particleCount cfg])
   \<and> length (map (explosionParticle cfg rnd ex ey) [0..<explosion_particleCount cfg])
     = explosion_particleCount cfg
   \<and> map (\<lambda>p. p\<lparr>vx := 0, vy := 0\<rparr>) (particles (applyMouseForces cfg s))
     = map (\<lambda>p. p\<lparr>vx := 0, vy := 0\<rparr>) (particles s)
   \<and> map (\<lambda>p. p\<lparr>connections := []\<rparr>) (particles (updateConnections cfg s))
     = map (\<lambda>p. p\<lparr>connections := []\<rparr>) (particles s)
   \<and> particles (handleResize win s) = particles s"
proof (intro conjI)
  show "updateParticles cfg win ps
     = map (update cfg win) (filter (\<lambda>p. \<not> isDead (update cfg win p)) ps)"
    by (rule updateParticles_map_filter)
  show "particles (createExplosion cfg rnd ex ey s)
     = drop (if 0 < particleCount cfg
                \<and> particleCount cfg * 2 < length (particles s) + explosion_particleCount cfg
             then length (particles s) + explosion_particleCount cfg - particleCount cfg * 2
             else 0)
         (particles s @ map (explosionParticle cfg rnd ex ey) [0..<explosion_particleCount cfg])"
    by (rule createExplosion_drop_exact)
  show "length (map (explosionParticle cfg rnd ex ey) [0..<explosion_particleCount cfg])
     = explosion_particleCount cfg"
    by simp
  show "map (\<lambda>p. p\<lparr>vx := 0, vy := 0\<rparr>) (particles (applyMouseForces cfg s))
     = map (\<lambda>p. p\<lparr>vx := 0, vy := 0\<rparr>) (particles s)"
    by (rule applyMouseForces_other_fields)
  show "map (\<lambda>p. p\<lparr>connections := []\<rparr>) (particles (updateConnections cfg s))
     = map (\<lambda>p. p\<lparr>connections := []\<rparr>) (particles s)"
    by (rule updateConnections_other_fields)
  show "particles (handleResize win s) = particles s"
    by (rule particles_handleResize)
qed

text \<open>
  With the configuration of the source, on particles told apart by their \<open>x\<close>: of 90
  particles at \<open>x = 0, \<dots>, 89\<close> an explosion at \<open>x = 400\<close> leaves those at
  \<open>10, \<dots>, 89\<close> followed by the 20 new ones; of 50 it leaves all 50 followed by the 20
  new ones. Of three particles at \<open>x = 10, 20, 30\<close> of which the second dies, the update
  pass leaves the first and the third, in this order.
\<close>

theorem C10_order_preserved_witness:
  "map x (particles (createExplosion PARTICLE_CONFIG (\<lambda>k. 1 / 2) 400 300
            (example_system (map (\<lambda>i. example_particle (real i) 0 1 (1 / 200)) [0..<90]))))
     = map real [10..<90] @ replicate 20 400
   \<and> map x (particles (createExplosion PARTICLE_CONFIG (\<lambda>k. 1 / 2) 400 300
            (example_system (map (\<lambda>i. example_particle (real i) 0 1 (1 / 200)) [0..<50]))))
     = map real [0..<50] @ replicate 20 400
   \<and> map x (updateParticles PARTICLE_CONFIG example_window
        [example_particle 10 0 1 (1 / 200), example_particle 20 0 (1 / 200) (1 / 200),
         example_particle 30 0 1 (1 / 200)])
     = [10, 30]"
proof -
  have new: "map x (map (explosionParticle PARTICLE_CONFIG (\<lambda>k. 1 / 2) 400 300) [0..<20])
               = replicate 20 400"
    by (simp add: comp_def explosionParticle_sel map_replicate_const)
  have old: "\<And>a b. map x (map (\<lambda>i. example_particle (real i) 0 1 (1 / 200)) [a..<b])
               = map real [a..<b]"
    by (simp add: comp_def)
  from C10_order_preserved [of PARTICLE_CONFIG example_window
         "[example_particle 10 0 1 (1 / 200), example_particle 20 0 (1 / 200) (1 / 200),
           example_particle 30 0 1 (1 / 200)]" "\<lambda>k. 1 / 2" 400 300
         "example_system (map (\<lambda>i. example_particle (real i) 0 1 (1 / 200)) [0..<90])"]
  have a: "particles (createExplosion PARTICLE_CONFIG (\<lambda>k. 1 / 2) 400 300
            (example_system (map (\<lambda>i. example_particle (real i) 0 1 (1 / 200)) [0..<90])))
        = drop 10 (map (\<lambda>i. example_particle (real i) 0 1 (1 / 200)) [0..<90]
                   @ map (explosionParticle PARTICLE_CONFIG (\<lambda>k. 1 / 2) 400 300) [0..<20])"
    and c: "updateParticles PARTICLE_CONFIG example_window
        [example_particle 10 0 1 (1 / 200), example_particle 20 0 (1 / 200) (1 / 200),
         example_particle 30 0 1 (1 / 200)]
      = map (update PARTICLE_CONFIG example_window)
          (filter (\<lambda>p. \<not> isDead (update PARTICLE_CONFIG example_window p))
             [example_particle 10 0 1 (1 / 200), example_particle 20 0 (1 / 200) (1 / 200),
              example_particle 30 0 1 (1 / 200)])"
    by simp_all
  from C10_order_preserved [of PARTICLE_CONFIG example_window "[]" "\<lambda>k. 1 / 2" 400 300
         "example_system (map (\<lambda>i. example_particle (real i) 0 1 (1 / 200)) [0..<50])"]
  have b: "particles (createExplosion PARTICLE_CONFIG (\<lambda>k. 1 / 2) 400 300
            (example_system (map (\<lambda>i. example_particle (real i) 0 1 (1 / 200)) [0..<50])))
        = map (\<lambda>i. example_particle (real i) 0 1 (1 / 200)) [0..<50]
          @ map (explosionParticle PARTICLE_CONFIG (\<lambda>k. 1 / 2) 400 300) [0..<20]"
    by simp
  have "drop 10 (map (\<lambda>i. example_particle (real i) 0 1 (1 / 200)) [0..<90])
          = map (\<lambda>i. example_particle (real i) 0 1 (1 / 200)) [10..<90]"
    by (simp add: drop_map)
  then have a': "map x (drop 10 (map (\<lambda>i. example_particle (real i) 0 1 (1 / 200)) [0..<90]
                   @ map (explosionParticle PARTICLE_CONFIG (\<lambda>k. 1 / 2) 400 300) [0..<20]))
        = map real [10..<90] @ replicate 20 400"
    using new old [of 10 90] by simp
  have c': "map x (map (update PARTICLE_CONFIG example_window)
          (filter (\<lambda>p. \<not> isDead (update PARTICLE_CONFIG example_window p))
             [example_particle 10 0 1 (1 / 200), example_particle 20 0 (1 / 200) (1 / 200),
              example_particle 30 0 1 (1 / 200)])) = [10, 30]"
    by (simp add: isDead_update x_update Let_def example_window_def)
  show ?thesis
    unfolding a b c using a' c' new old [of 0 50] by simp
qed

subsection \<open>The frame\<close>

lemma ctx_do_Some: "ctx s = Some issued \<Longrightarrow> ctx_do ops s = Inr (s\<lparr>ctx := Some (issued @ ops)\<rparr>)"
  by (simp add: ctx_do_def)

lemma ctx_do_None: "ctx s = None \<Longrightarrow> ctx_do ops s = Inl (TypeError, s)"
  by (simp add: ctx_do_def)

lemma enter_sel [simp]:
  "ctx (enter c s) = ctx s"
  "particles (enter c s) = particles s"
  "pendingFrames (enter c s) = pendingFrames s"
  "calls (enter c s) = calls s @ [c]"
  "canvas_width (enter c s) = canvas_width s"
  "canvas_height (enter c s) = canvas_height s"
  "isMouseOver (enter c s) = isMouseOver s"
  "mouseX (enter c s) = mouseX s"
  "mouseY (enter c s) = mouseY s"
  by (simp_all add: enter_def)

lemma applyMouseForces_sel [simp]:
  "ctx (applyMouseForces cfg s) = ctx s"
  "pendingFrames (applyMouseForces cfg s) = pendingFrames s"
  "calls (applyMouseForces cfg s) = calls s"
  by (simp_all add: applyMouseForces_def)

lemma updateConnections_sel [simp]:
  "ctx (updateConnections cfg s) = ctx s"
  "pendingFrames (updateConnections cfg s) = pendingFrames s"
  "calls (updateConnections cfg s) = calls s"
  by (simp_all add: updateConnections_def Let_def)

lemma requestAnimationFrame_sel [simp]:
  "ctx (requestAnimationFrame s) = ctx s"
  "pendingFrames (requestAnimationFrame s) = pendingFrames s + 1"
  "calls (requestAnimationFrame s) = calls s"
  "particles (requestAnimationFrame s) = particles s"
  by (simp_all add: requestAnimationFrame_def)

lemma drawParticles_Some:
  "ctx s = Some issued \<Longrightarrow>
     drawParticles ps s = Inr (s\<lparr>ctx := Some (issued @ concat (map drawOps ps))\<rparr>)"
proof (induction ps arbitrary: s issued)
  case Nil
  then show ?case by simp
next
  case (Cons p ps)
  have "draw p s = Inr (s\<lparr>ctx := Some (issued @ drawOps p)\<rparr>)"
    using Cons.prems by (simp add: draw_def ctx_do_Some)
  moreover have "drawParticles ps (s\<lparr>ctx := Some (issued @ drawOps p)\<rparr>)
      = Inr (s\<lparr>ctx := Some (issued @ drawOps p)\<rparr>
               \<lparr>ctx := Some ((issued @ drawOps p) @ concat (map drawOps ps))\<rparr>)"
    by (rule Cons.IH) simp
  ultimately show ?case by simp
qed

lemma drawConnections_Some:
  "ctx s = Some issued \<Longrightarrow>
     drawConnections cfg s
       = Inr (s\<lparr>ctx := Some (issued
                @ [Save, SetStrokeStyle ''rgba(139, 115, 85, 0.1)'', SetLineWidth (1 / 2)]
                @ concat (map (connectionOps cfg (particles s)) (particles s))
                @ [Restore])\<rparr>)"
  by (simp add: drawConnections_def ctx_do_Some)

lemma animate_None:
  "ctx s = None \<Longrightarrow> animate cfg win s = Inl (TypeError, enter C_clearRect s)"
  by (simp add: animate_def ctx_do_None)

lemma animate_Some:
  assumes "ctx s = Some issued"
  shows "\<exists>s'. animate cfg win s = Inr s'
           \<and> calls s' = calls s @ [C_clearRect, C_applyMouseForces, C_updateParticles,
                 C_updateConnections, C_drawConnections, C_drawParticles,
                 C_requestAnimationFrame]
           \<and> pendingFrames s' = pendingFrames s + 1
           \<and> particles s'
               = particles (updateConnections cfg
                   (s\<lparr>particles := updateParticles cfg win (particles (applyMouseForces cfg s))\<rparr>))
           \<and> ctx s' = Some (issued
                @ [ClearRect 0 0 (canvas_width s) (canvas_height s)]
                @ [Save, SetStrokeStyle ''rgba(139, 115, 85, 0.1)'', SetLineWidth (1 / 2)]
                @ concat (map (connectionOps cfg (particles s')) (particles s'))
                @ [Restore]
                @ concat (map drawOps (particles s')))"
proof -
  let ?s1 = "(enter C_clearRect s)\<lparr>ctx := Some (issued @ [ClearRect 0 0 (canvas_width s) (canvas_height s)])\<rparr>"
  let ?s2 = "applyMouseForces cfg (enter C_applyMouseForces ?s1)"
  let ?s3 = "(enter C_updateParticles ?s2)\<lparr>particles := updateParticles cfg win (particles ?s2)\<rparr>"
  let ?s4 = "updateConnections cfg (enter C_updateConnections ?s3)"
  have c1: "ctx_do [ClearRect 0 0 (canvas_width s) (canvas_height s)] (enter C_clearRect s) = Inr ?s1"
    using assms by (simp add: ctx_do_Some)
  have ctx4: "ctx (enter C_drawConnections ?s4)
                = Some (issued @ [ClearRect 0 0 (canvas_width s) (canvas_height s)])"
    by simp
  obtain s5 where s5: "drawConnections cfg (enter C_drawConnections ?s4) = Inr s5"
    and s5_def: "s5 = (enter C_drawConnections ?s4)\<lparr>ctx := Some ((issued @ [ClearRect 0 0 (canvas_width s) (canvas_height s)])
                @ [Save, SetStrokeStyle ''rgba(139, 115, 85, 0.1)'', SetLineWidth (1 / 2)]
                @ concat (map (connectionOps cfg (particles (enter C_drawConnections ?s4)))
                            (particles (enter C_drawConnections ?s4)))
                @ [Restore])\<rparr>"
    using drawConnections_Some [OF ctx4, of cfg] by blast
  have ctx5: "ctx (enter C_drawParticles s5) = Some ((issued @ [ClearRect 0 0 (canvas_width s) (canvas_height s)])
                @ [Save, SetStrokeStyle ''rgba(139, 115, 85, 0.1)'', SetLineWidth (1 / 2)]
                @ concat (map (connectionOps cfg (particles ?s4)) (particles ?s4))
                @ [Restore])"
    by (simp add: s5_def)
  obtain s6 where s6: "drawParticles (particles s5) (enter C_drawParticles s5) = Inr s6"
    and s6_def: "s6 = (enter C_drawParticles s5)\<lparr>ctx := Some (((issued @ [ClearRect 0 0 (canvas_width s) (canvas_height s)])
                @ [Save, SetStrokeStyle ''rgba(139, 115, 85, 0.1)'', SetLineWidth (1 / 2)]
                @ concat (map (connectionOps cfg (particles ?s4)) (particles ?s4))
                @ [Restore]) @ concat (map drawOps (particles s5)))\<rparr>"
    using drawParticles_Some [OF ctx5, of "particles s5"] by blast
  have res: "animate cfg win s = Inr (requestAnimationFrame (enter C_requestAnimationFrame s6))"
    by (simp add: animate_def c1 Let_def s5 s6)
  have p5: "particles s5 = particles ?s4" by (simp add: s5_def)
  have p6: "particles s6 = particles ?s4" by (simp add: s6_def p5)
  have p4: "particles ?s4 = particles (updateConnections cfg
                   (s\<lparr>particles := updateParticles cfg win (particles (applyMouseForces cfg s))\<rparr>))"
    by (simp add: particles_updateConnections applyMouseForces_def enter_def)
  show ?thesis
  proof (intro exI conjI)
    show "animate cfg win s = Inr (requestAnimationFrame (enter C_requestAnimationFrame s6))"
      by (rule res)
  next
    show "calls (requestAnimationFrame (enter C_requestAnimationFrame s6))
            = calls s @ [C_clearRect, C_applyMouseForces, C_updateParticles,
                 C_updateConnections, C_drawConnections, C_drawParticles,
                 C_requestAnimationFrame]"
      by (simp add: s6_def s5_def)
  next
    show "pendingFrames (requestAnimationFrame (enter C_requestAnimationFrame s6))
            = pendingFrames s + 1"
      by (simp add: s6_def s5_def)
  next
    show "particles (requestAnimationFrame (enter C_requestAnimationFrame s6))
            = particles (updateConnections cfg
                   (s\<lparr>particles := updateParticles cfg win (particles (applyMouseForces cfg s))\<rparr>))"
      by (simp add: p6 p4)
  next
    show "ctx (requestAnimationFrame (enter C_requestAnimationFrame s6))
            = Some (issued
                @ [ClearRect 0 0 (canvas_width s) (canvas_height s)]
                @ [Save, SetStrokeStyle ''rgba(139, 115, 85, 0.1)'', SetLineWidth (1 / 2)]
                @ concat (map (connectionOps cfg
                     (particles (requestAnimationFrame (enter C_requestAnimationFrame s6))))
                     (particles (requestAnimationFrame (enter C_requestAnimationFrame s6))))
                @ [Restore]
                @ concat (map drawOps
                     (particles (requestAnimationFrame (enter C_requestAnimationFrame s6)))))"
      by (simp add: p6) (simp add: s6_def p5)
  qed
qed

lemma enter_fields [simp]:
  "lastMouseX (enter c s) = lastMouseX s"
  "lastMouseY (enter c s) = lastMouseY s"
  by (simp_all add: enter_def)

lemma animate_state:
  assumes "ctx s = Some issued"
  shows "animate cfg win s =
     Inr (s\<lparr>ctx := Some (issued
              @ [ClearRect 0 0 (canvas_width s) (canvas_height s)]
              @ [Save, SetStrokeStyle ''rgba(139, 115, 85, 0.1)'', SetLineWidth (1 / 2)]
              @ concat (map (connectionOps cfg
                   (particles (updateConnections cfg
                      (s\<lparr>particles := updateParticles cfg win
                                            (particles (applyMouseForces cfg s))\<rparr>))))
                   (particles (updateConnections cfg
                      (s\<lparr>particles := updateParticles cfg win
                                            (particles (applyMouseForces cfg s))\<rparr>))))
              @ [Restore]
              @ concat (map drawOps
                   (particles (updateConnections cfg
                      (s\<lparr>particles := updateParticles cfg win
                                            (particles (applyMouseForces cfg s))\<rparr>))))),
          particles := particles (updateConnections cfg
                      (s\<lparr>particles := updateParticles cfg win
                                            (particles (applyMouseForces cfg s))\<rparr>)),
          pendingFrames := pendingFrames s + 1,
          calls := calls s @ [C_clearRect, C_applyMouseForces, C_updateParticles,
              C_updateConnections, C_drawConnections, C_drawParticles,
              C_requestAnimationFrame]\<rparr>)"
proof -
  let ?P = "particles (updateConnections cfg
                      (s\<lparr>particles := updateParticles cfg win
                                            (particles (applyMouseForces cfg s))\<rparr>))"
  let ?s1 = "(enter C_clearRect s)\<lparr>ctx := Some (issued @ [ClearRect 0 0 (canvas_width s) (canvas_height s)])\<rparr>"
  let ?s2 = "applyMouseForces cfg (enter C_applyMouseForces ?s1)"
  let ?s3 = "(enter C_updateParticles ?s2)\<lparr>particles := updateParticles cfg win (particles ?s2)\<rparr>"
  let ?s4 = "updateConnections cfg (enter C_updateConnections ?s3)"
  have c1: "ctx_do [ClearRect 0 0 (canvas_width s) (canvas_height s)] (enter C_clearRect s) = Inr ?s1"
    using assms by (simp add: ctx_do_Some)
  have p4: "particles ?s4 = ?P"
    by (simp add: particles_updateConnections applyMouseForces_def enter_def)
  have s4: "?s4 = s\<lparr>ctx := Some (issued @ [ClearRect 0 0 (canvas_width s) (canvas_height s)]),
                     particles := ?P,
                     calls := calls s @ [C_clearRect, C_applyMouseForces, C_updateParticles,
                                C_updateConnections]\<rparr>"
    unfolding p4 [symmetric]
    by (simp add: updateConnections_def Let_def applyMouseForces_def enter_def)
  have ctx4: "ctx (enter C_drawConnections ?s4)
                = Some (issued @ [ClearRect 0 0 (canvas_width s) (canvas_height s)])"
    by simp
  have d5: "drawConnections cfg (enter C_drawConnections ?s4)
      = Inr ((enter C_drawConnections ?s4)\<lparr>ctx := Some ((issued @ [ClearRect 0 0 (canvas_width s) (canvas_height s)])
                @ [Save, SetStrokeStyle ''rgba(139, 115, 85, 0.1)'', SetLineWidth (1 / 2)]
                @ concat (map (connectionOps cfg (particles (enter C_drawConnections ?s4)))
                            (particles (enter C_drawConnections ?s4)))
                @ [Restore])\<rparr>)"
    by (rule drawConnections_Some [OF ctx4])
  let ?s5 = "(enter C_drawConnections ?s4)\<lparr>ctx := Some ((issued @ [ClearRect 0 0 (canvas_width s) (canvas_height s)])
                @ [Save, SetStrokeStyle ''rgba(139, 115, 85, 0.1)'', SetLineWidth (1 / 2)]
                @ concat (map (connectionOps cfg ?P) ?P)
                @ [Restore])\<rparr>"
  have d5': "drawConnections cfg (enter C_drawConnections ?s4) = Inr ?s5"
    using d5 p4 by simp
  have ctx5: "ctx (enter C_drawParticles ?s5) = Some ((issued @ [ClearRect 0 0 (canvas_width s) (canvas_height s)])
                @ [Save, SetStrokeStyle ''rgba(139, 115, 85, 0.1)'', SetLineWidth (1 / 2)]
                @ concat (map (connectionOps cfg ?P) ?P)
                @ [Restore])"
    by simp
  have p5: "particles ?s5 = ?P" using p4 by simp
  let ?s6 = "(enter C_drawParticles ?s5)\<lparr>ctx := Some (((issued @ [ClearRect 0 0 (canvas_width s) (canvas_height s)])
                @ [Save, SetStrokeStyle ''rgba(139, 115, 85, 0.1)'', SetLineWidth (1 / 2)]
                @ concat (map (connectionOps cfg ?P) ?P)
                @ [Restore]) @ concat (map drawOps ?P))\<rparr>"
  have d6: "drawParticles (particles ?s5) (enter C_drawParticles ?s5) = Inr ?s6"
    using drawParticles_Some [OF ctx5, of "particles ?s5"] p5 by simp
  have res: "animate cfg win s = Inr (requestAnimationFrame (enter C_requestAnimationFrame ?s6))"
    by (simp only: animate_def c1 Let_def d5' d6 sum.case)
  have "requestAnimationFrame (enter C_requestAnimationFrame ?s6)
      = s\<lparr>ctx := Some (issued
              @ [ClearRect 0 0 (canvas_width s) (canvas_height s)]
              @ [Save, SetStrokeStyle ''rgba(139, 115, 85, 0.1)'', SetLineWidth (1 / 2)]
              @ concat (map (connectionOps cfg ?P) ?P)
              @ [Restore]
              @ concat (map drawOps ?P)),
          particles := ?P,
          pendingFrames := pendingFrames s + 1,
          calls := calls s @ [C_clearRect, C_applyMouseForces, C_updateParticles,
              C_updateConnections, C_drawConnections, C_drawParticles,
              C_requestAnimationFrame]\<rparr>"
    unfolding s4 by (simp add: requestAnimationFrame_def enter_def)
  with res show ?thesis by simp
qed

lemma animate_Inl_iff:
  "animate cfg win s = Inl thrown \<longleftrightarrow> ctx s = None \<and> thrown = (TypeError, enter C_clearRect s)"
proof (cases "ctx s")
  case None
  then show ?thesis by (auto simp: animate_None)
next
  case (Some issued)
  from animate_Some [OF Some, of cfg win] show ?thesis using Some by auto
qed

lemma pendingFrames_thrown:
  "animate cfg win s = Inl (e, s') \<Longrightarrow> pendingFrames s' = pendingFrames s"
  by (auto simp: animate_Inl_iff)

lemma pendingFrames_returned:
  "animate cfg win s = Inr s' \<Longrightarrow> pendingFrames s' = pendingFrames s + 1"
proof (cases "ctx s")
  case None
  then show "animate cfg win s = Inr s' \<Longrightarrow> ?thesis" by (simp add: animate_None)
next
  case (Some issued)
  from animate_Some [OF Some, of cfg win]
  show "animate cfg win s = Inr s' \<Longrightarrow> ?thesis" by auto
qed

lemma runFrames_idle: "pendingFrames s = 0 \<Longrightarrow> runFrames cfg win n s = s"
  by (induction n) (simp_all add: runFrame_def)

lemma animate_no_dead:
  assumes "animate cfg win s = Inr s'" and "p \<in> set (particles s')"
  shows "0 < life p \<and> \<not> isDead p"
proof -
  from assms(1) obtain issued where c: "ctx s = Some issued"
    by (cases "ctx s") (simp_all add: animate_None)
  let ?qs = "updateParticles cfg win (particles (applyMouseForces cfg s))"
  from animate_Some [OF c, of cfg win] assms(1)
  have "particles s' = particles (updateConnections cfg (s\<lparr>particles := ?qs\<rparr>))"
    by auto
  then have "particles s'
      = map (\<lambda>k. (?qs ! k)\<lparr>connections := connectionsOf cfg ?qs k\<rparr>) [0..<length ?qs]"
    by (simp add: particles_updateConnections)
  with assms(2) obtain k where k: "k < length ?qs"
    and p: "p = (?qs ! k)\<lparr>connections := connectionsOf cfg ?qs k\<rparr>"
    by auto
  from k have "?qs ! k \<in> set ?qs" by simp
  then have "0 < life (?qs ! k)" "\<not> isDead (?qs ! k)"
    by (rule life_updateParticles, rule alive_updateParticles)
  then show ?thesis by (simp add: p isDead_def)
qed

text \<open>
  Claim C6, as stated, fails: the canvas is cleared first, not fourth. The log of the
  frame of a system without particles starts with the clearing of the canvas. And when
  the system has no context, the frame throws at the clearing with its particle as it
  was, not updated: the update had not run yet.
\<close>

theorem C6_frame_order_counterexample:
  "(case animate PARTICLE_CONFIG example_window (example_system []) of
      Inl thrown \<Rightarrow> None | Inr s' \<Rightarrow> Some (calls s'))
     = Some [C_clearRect, C_applyMouseForces, C_updateParticles, C_updateConnections,
             C_drawConnections, C_drawParticles, C_requestAnimationFrame]
   \<and> (case animate PARTICLE_CONFIG example_window (example_system []) of
      Inl thrown \<Rightarrow> None | Inr s' \<Rightarrow> Some (calls s'))
     \<noteq> Some [C_applyMouseForces, C_updateParticles, C_updateConnections, C_clearRect,
             C_drawConnections, C_drawParticles, C_requestAnimationFrame]
   \<and> (case animate PARTICLE_CONFIG example_window
              ((example_system [example_particle 10 10 1 (1 / 200)])\<lparr>ctx := None\<rparr>) of
         Inl (e, s') \<Rightarrow> Some (e, particles s') | Inr s' \<Rightarrow> None)
     = Some (TypeError, [example_particle 10 10 1 (1 / 200)])
   \<and> update PARTICLE_CONFIG example_window (example_particle 10 10 1 (1 / 200))
     \<noteq> example_particle 10 10 1 (1 / 200)"
proof -
  have c: "ctx (example_system []) = Some []" by simp
  have n: "ctx ((example_system [example_particle 10 10 1 (1 / 200)])\<lparr>ctx := None\<rparr>) = None"
    by simp
  have "life (update PARTICLE_CONFIG example_window (example_particle 10 10 1 (1 / 200)))
          \<noteq> life (example_particle 10 10 1 (1 / 200))"
    by (simp add: life_update)
  then have d: "update PARTICLE_CONFIG example_window (example_particle 10 10 1 (1 / 200))
     \<noteq> example_particle 10 10 1 (1 / 200)"
    by metis
  show ?thesis
    using d by (simp add: animate_state [OF c] animate_None [OF n] enter_def)
qed

text \<open>
  Claim C6, amended. A frame of a system with a context returns, and the state it
  leaves is the state before the frame with these four changes. The particles are the
  result of the pointer forces, then the update pass on that result, then the
  connection pass on that result. The canvas has received the clearing, then the lines
  of the connections of these particles, then these particles. One more frame is
  pending. The log has the statements in the order clear, pointer forces, update,
  connections, draw lines, draw particles, request. Without a context the frame throws
  at the clearing, before anything else has run.
\<close>

theorem C6_frame_order:
  "(ctx s = Some issued \<longrightarrow>
      animate cfg win s =
        Inr (s\<lparr>ctx := Some (issued
                 @ [ClearRect 0 0 (canvas_width s) (canvas_height s)]
                 @ [Save, SetStrokeStyle ''rgba(139, 115, 85, 0.1)'', SetLineWidth (1 / 2)]
                 @ concat (map (connectionOps cfg
                      (particles (updateConnections cfg
                         (s\<lparr>particles := updateParticles cfg win
                                               (particles (applyMouseForces cfg s))\<rparr>))))
                      (particles (updateConnections cfg
                         (s\<lparr>particles := updateParticles cfg win
                                               (particles (applyMouseForces cfg s))\<rparr>))))
                 @ [Restore]
                 @ concat (map drawOps
                      (particles (updateConnections cfg
                         (s\<lparr>particles := updateParticles cfg win
                                               (particles (applyMouseForces cfg s))\<rparr>))))),
             particles := particles (updateConnections cfg
                         (s\<lparr>particles := updateParticles cfg win
                                               (particles (applyMouseForces cfg s))\<rparr>)),
             pendingFrames := pendingFrames s + 1,
             calls := calls s @ [C_clearRect, C_applyMouseForces, C_updateParticles,
                 C_updateConnections, C_drawConnections, C_drawParticles,
                 C_requestAnimationFrame]\<rparr>))
   \<and> (ctx s = None \<longrightarrow> animate cfg win s = Inl (TypeError, enter C_clearRect s))"
  using animate_state [of s issued cfg win] animate_None [of s cfg win] by blast

text \<open>
  The frame of a system with one particle at \<open>(10, 10)\<close>: the log is in the order above,
  one frame is pending, and the particle has been updated once (life \<open>0.995\<close>,
  \<open>y = 10.0495\<close>) and holds no connection. Without a context the same system throws at
  the clearing.
\<close>

theorem C6_frame_order_witness:
  "(case animate PARTICLE_CONFIG example_window
           (example_system [example_particle 10 10 1 (1 / 200)]) of
      Inl thrown \<Rightarrow> None
    | Inr s' \<Rightarrow> Some (calls s', pendingFrames s', map life (particles s'),
                      map y (particles s'), map connections (particles s')))
     = Some ([C_clearRect, C_applyMouseForces, C_updateParticles, C_updateConnections,
              C_drawConnections, C_drawParticles, C_requestAnimationFrame],
             1, [199 / 200], [10 + (5 / 100) * (99 / 100)], [[]])
   \<and> animate PARTICLE_CONFIG example_window
        ((example_system [example_particle 10 10 1 (1 / 200)])\<lparr>ctx := None\<rparr>)
     = Inl (TypeError, enter C_clearRect
              ((example_system [example_particle 10 10 1 (1 / 200)])\<lparr>ctx := None\<rparr>))"
proof -
  have pass: "updateParticles PARTICLE_CONFIG example_window [example_particle 10 10 1 (1 / 200)]
                = [update PARTICLE_CONFIG example_window (example_particle 10 10 1 (1 / 200))]"
    by (simp add: isDead_update)
  have P: "particles (updateConnections PARTICLE_CONFIG
             ((example_system [example_particle 10 10 1 (1 / 200)])
                \<lparr>particles := updateParticles PARTICLE_CONFIG example_window
                   (particles (applyMouseForces PARTICLE_CONFIG
                      (example_system [example_particle 10 10 1 (1 / 200)])))\<rparr>))
           = [(update PARTICLE_CONFIG example_window (example_particle 10 10 1 (1 / 200)))
                \<lparr>connections := []\<rparr>]"
    using pass
    by (simp add: particles_updateConnections applyMouseForces_def connectionsOf_def
          del: updateParticles.simps)
  from C6_frame_order [of "example_system [example_particle 10 10 1 (1 / 200)]" "[]"
          PARTICLE_CONFIG example_window]
       C6_frame_order [of "(example_system [example_particle 10 10 1 (1 / 200)])\<lparr>ctx := None\<rparr>"
          "[]" PARTICLE_CONFIG example_window]
  show ?thesis
    unfolding P
    by (simp add: life_update y_update Let_def example_window_def)
qed

lemma null_context_system_sel [simp]:
  "ctx null_context_system = None"
  "pendingFrames null_context_system = 0"
  "calls null_context_system = []"
  by (simp_all add: null_context_system_def new_ParticleSystem_def)

lemma handleResize_sel [simp]:
  "ctx (handleResize win s) = ctx s"
  "pendingFrames (handleResize win s) = pendingFrames s"
  "calls (handleResize win s) = calls s"
  by (simp_all add: handleResize_def)

lemma start_None:
  "ctx s = None \<Longrightarrow> start cfg win s = Inl (TypeError, enter C_clearRect (handleResize win s))"
  by (simp add: start_def animate_None)

lemma loop_ends_at_exception:
  assumes "animate cfg win s = Inl (e, s')" and "pendingFrames s = 0"
  shows "runFrames cfg win n s' = s'"
  using assms pendingFrames_thrown [OF assms(1)] by (simp add: runFrames_idle)

text \<open>
  Claim C9, as stated, fails: nothing catches an exception of a frame. When
  \<open>getContext\<close> has returned \<open>null\<close>, the first frame, run by \<open>start\<close>, throws a
  \<open>TypeError\<close> at \<open>clearRect\<close> and leaves no frame pending; ten frame slots later still
  only that one frame has started.
\<close>

theorem C9_exception_caught_counterexample:
  "(case start PARTICLE_CONFIG example_window null_context_system of
      Inl (e, s') \<Rightarrow>
        Some (e, pendingFrames s',
              calls (runFrames PARTICLE_CONFIG example_window 10 s'),
              pendingFrames (runFrames PARTICLE_CONFIG example_window 10 s'))
    | Inr s' \<Rightarrow> None)
     = Some (TypeError, 0, [C_clearRect], 0)"
  by (simp add: start_None runFrames_idle del: runFrames.simps)

text \<open>
  Claim C9, amended. An exception of a frame is not caught: without a context a frame
  throws a \<open>TypeError\<close> at its first statement, also the first frame, which \<open>start\<close>
  runs. A frame that throws requests no frame, and a frame that returns requests one.
  So the loop ends at the first frame that throws: when no other frame was pending,
  any number of frame slots leaves the state of the throw as it is.
\<close>

theorem C9_exception_ends_loop:
  "(ctx s = None \<longrightarrow>
      animate cfg win s = Inl (TypeError, enter C_clearRect s)
      \<and> start cfg win s = Inl (TypeError, enter C_clearRect (handleResize win s)))
   \<and> (animate cfg win s = Inl (e, s') \<longrightarrow>
        pendingFrames s' = pendingFrames s
        \<and> (pendingFrames s = 0 \<longrightarrow> runFrames cfg win n s' = s'))
   \<and> (animate cfg win s = Inr s'' \<longrightarrow> pendingFrames s'' = pendingFrames s + 1)"
proof (intro conjI impI)
  assume "ctx s = None"
  then show "animate cfg win s = Inl (TypeError, enter C_clearRect s)"
    and "start cfg win s = Inl (TypeError, enter C_clearRect (handleResize win s))"
    by (rule animate_None, rule start_None)
next
  assume "animate cfg win s = Inl (e, s')"
  then show "pendingFrames s' = pendingFrames s" by (rule pendingFrames_thrown)
next
  assume "animate cfg win s = Inl (e, s')" and "pendingFrames s = 0"
  then show "runFrames cfg win n s' = s'" by (rule loop_ends_at_exception)
next
  assume "animate cfg win s = Inr s''"
  then show "pendingFrames s'' = pendingFrames s + 1" by (rule pendingFrames_returned)
qed

text \<open>
  Without a context the frame throws and three frame slots later no frame is pending;
  with a context the frame returns and one frame is pending.
\<close>

theorem C9_exception_ends_loop_witness:
  "animate PARTICLE_CONFIG example_window null_context_system
     = Inl (TypeError, enter C_clearRect null_context_system)
   \<and> runFrames PARTICLE_CONFIG example_window 3 (enter C_clearRect null_context_system)
     = enter C_clearRect null_context_system
   \<and> pendingFrames (enter C_clearRect null_context_system) = 0
   \<and> (case animate PARTICLE_CONFIG example_window (example_system []) of
         Inl thrown \<Rightarrow> None | Inr s' \<Rightarrow> Some (pendingFrames s')) = Some 1"
proof -
  have c: "ctx (example_system []) = Some []" by simp
  obtain s' where s': "animate PARTICLE_CONFIG example_window (example_system []) = Inr s'"
    using animate_Some [OF c, of PARTICLE_CONFIG example_window] by blast
  from C9_exception_ends_loop [of null_context_system PARTICLE_CONFIG example_window
         TypeError "enter C_clearRect null_context_system" 3 s']
       C9_exception_ends_loop [of "example_system []" PARTICLE_CONFIG example_window
         TypeError "enter C_clearRect null_context_system" 3 s']
  show ?thesis using s' by (simp del: runFrames.simps)
qed

subsection \<open>No dead particle is left\<close>

text \<open>
  Claim C4. After the update pass of a frame no particle with remaining life \<open>\<le> 0\<close> is
  in the array: every particle that is left has positive life and is not dead. The pass
  is one filter over the array in which every particle is updated once: its result is
  the list of all updated particles with the dead ones left out. A pass in which no
  particle's life reaches zero or less removes nothing: its result is the list of all
  updated particles. The same holds for the particles that a frame leaves when it
  returns: none of them is dead.
\<close>

theorem C4_dead_particles_removed:
  "(\<forall>p \<in> set (updateParticles cfg win ps). 0 < life p \<and> \<not> isDead p)
   \<and> updateParticles cfg win ps = filter (\<lambda>p. \<not> isDead p) (map (update cfg win) ps)
   \<and> ((\<forall>p \<in> set ps. 0 < life (update cfg win p)) \<longrightarrow>
        updateParticles cfg win ps = map (update cfg win) ps)
   \<and> (animate cfg win s = Inr s' \<longrightarrow> (\<forall>p \<in> set (particles s'). 0 < life p \<and> \<not> isDead p))"
proof (intro conjI ballI impI)
  fix p assume "p \<in> set (updateParticles cfg win ps)"
  then show "0 < life p" by (rule life_updateParticles)
next
  fix p assume "p \<in> set (updateParticles cfg win ps)"
  then show "\<not> isDead p" by (rule alive_updateParticles)
next
  show "updateParticles cfg win ps = filter (\<lambda>p. \<not> isDead p) (map (update cfg win) ps)"
    by (rule updateParticles_filter_map)
next
  assume "\<forall>p \<in> set ps. 0 < life (update cfg win p)"
  then show "updateParticles cfg win ps = map (update cfg win) ps"
    by (rule updateParticles_none_dead)
next
  fix p assume "animate cfg win s = Inr s'" "p \<in> set (particles s')"
  then show "0 < life p" "\<not> isDead p"
    using animate_no_dead by blast+
qed

text \<open>
  Of a particle with life \<open>1\<close> and one with life \<open>0.005\<close>, both with decay \<open>0.005\<close>, the
  pass keeps the first only; a second pass keeps it again. A frame of the system with
  these two particles leaves one particle, with life \<open>0.995\<close>.
\<close>

theorem C4_dead_particles_removed_witness:
  "updateParticles PARTICLE_CONFIG example_window
     [example_particle 10 10 1 (1 / 200), example_particle 20 20 (1 / 200) (1 / 200)]
   = [update PARTICLE_CONFIG example_window (example_particle 10 10 1 (1 / 200))]
   \<and> life (update PARTICLE_CONFIG example_window (example_particle 10 10 1 (1 / 200))) = 199 / 200
   \<and> updateParticles PARTICLE_CONFIG example_window
        [update PARTICLE_CONFIG example_window (example_particle 10 10 1 (1 / 200))]
      = [update PARTICLE_CONFIG example_window
           (update PARTICLE_CONFIG example_window (example_particle 10 10 1 (1 / 200)))]
   \<and> (case animate PARTICLE_CONFIG example_window
              (example_system [example_particle 10 10 1 (1 / 200),
                               example_particle 20 20 (1 / 200) (1 / 200)]) of
         Inl thrown \<Rightarrow> None
       | Inr s' \<Rightarrow> Some (map life (particles s'), list_all (\<lambda>p. 0 < life p) (particles s')))
      = Some ([199 / 200], True)"
proof -
  let ?s = "example_system [example_particle 10 10 1 (1 / 200),
                            example_particle 20 20 (1 / 200) (1 / 200)]"
  have pass: "updateParticles PARTICLE_CONFIG example_window
     [example_particle 10 10 1 (1 / 200), example_particle 20 20 (1 / 200) (1 / 200)]
   = [update PARTICLE_CONFIG example_window (example_particle 10 10 1 (1 / 200))]"
    by (simp add: isDead_update)
  have c: "ctx ?s = Some []" by simp
  from animate_Some [OF c, of PARTICLE_CONFIG example_window]
  obtain s' where s': "animate PARTICLE_CONFIG example_window ?s = Inr s'"
    and ps': "particles s' = particles (updateConnections PARTICLE_CONFIG
                (?s\<lparr>particles := updateParticles PARTICLE_CONFIG example_window
                                      (particles (applyMouseForces PARTICLE_CONFIG ?s))\<rparr>))"
    by blast
  have qs: "updateParticles PARTICLE_CONFIG example_window
              (particles (applyMouseForces PARTICLE_CONFIG ?s))
            = [update PARTICLE_CONFIG example_window (example_particle 10 10 1 (1 / 200))]"
    using pass by (simp add: applyMouseForces_def del: updateParticles.simps)
  have lifes: "map life (particles s') = [199 / 200]"
    unfolding ps' qs by (simp add: particles_updateConnections life_update)
  from C4_dead_particles_removed [of PARTICLE_CONFIG example_window
          "[example_particle 10 10 1 (1 / 200), example_particle 20 20 (1 / 200) (1 / 200)]" ?s s']
       C4_dead_particles_removed [of PARTICLE_CONFIG example_window
          "[update PARTICLE_CONFIG example_window (example_particle 10 10 1 (1 / 200))]" ?s s']
  show ?thesis
    using s' lifes by (simp add: isDead_update life_update decay_update list_all_iff)
qed

subsection \<open>Life and decay over the frames\<close>

lemma life_decay_updateParticles_cong:
  "map (\<lambda>p. (life p, decay p)) ps = map (\<lambda>p. (life p, decay p)) qs \<Longrightarrow>
     map (\<lambda>p. (life p, decay p)) (updateParticles cfg win ps)
       = map (\<lambda>p. (life p, decay p)) (updateParticles cfg win qs)"
proof (induction ps arbitrary: qs)
  case Nil
  then show ?case by simp
next
  case (Cons p ps)
  then obtain q qs' where qs: "qs = q # qs'" by (cases qs) auto
  with Cons.prems have pq: "life p = life q" "decay p = decay q"
    and rest: "map (\<lambda>p. (life p, decay p)) ps = map (\<lambda>p. (life p, decay p)) qs'"
    by auto
  have IH: "map (\<lambda>p. (life p, decay p)) (updateParticles cfg win ps)
              = map (\<lambda>p. (life p, decay p)) (updateParticles cfg win qs')"
    by (rule Cons.IH [OF rest])
  have dead: "isDead (update cfg win p) \<longleftrightarrow> isDead (update cfg win q)"
    by (simp only: isDead_update pq)
  have upd: "life (update cfg win p) = life (update cfg win q)"
            "decay (update cfg win p) = decay (update cfg win q)"
    by (simp_all only: life_update decay_update pq)
  show ?case
  proof (cases "isDead (update cfg win q)")
    case True
    then show ?thesis using dead IH by (simp only: qs updateParticles.simps Let_def) simp
  next
    case False
    then show ?thesis using dead IH upd by (simp only: qs updateParticles.simps Let_def) simp
  qed
qed

lemma life_decay_funpow_cong:
  "map (\<lambda>p. (life p, decay p)) ps = map (\<lambda>p. (life p, decay p)) qs \<Longrightarrow>
     map (\<lambda>p. (life p, decay p)) ((updateParticles cfg win ^^ n) ps)
       = map (\<lambda>p. (life p, decay p)) ((updateParticles cfg win ^^ n) qs)"
proof (induction n)
  case 0
  then show ?case by simp
next
  case (Suc n)
  from life_decay_updateParticles_cong [OF Suc.IH [OF Suc.prems], of cfg win]
  show ?case by simp
qed

lemma life_decay_applyMouseForces:
  "map (\<lambda>p. (life p, decay p)) (particles (applyMouseForces cfg s))
     = map (\<lambda>p. (life p, decay p)) (particles s)"
proof -
  have "map (\<lambda>p. (life p, decay p)) (map (\<lambda>p. p\<lparr>vx := 0, vy := 0\<rparr>) (particles (applyMouseForces cfg s)))
      = map (\<lambda>p. (life p, decay p)) (map (\<lambda>p. p\<lparr>vx := 0, vy := 0\<rparr>) (particles s))"
    by (simp only: applyMouseForces_other_fields)
  then show ?thesis by (simp add: comp_def)
qed

lemma life_decay_updateConnections:
  "map (\<lambda>p. (life p, decay p)) (particles (updateConnections cfg s))
     = map (\<lambda>p. (life p, decay p)) (particles s)"
proof -
  have "map (\<lambda>p. (life p, decay p)) (map (\<lambda>p. p\<lparr>connections := []\<rparr>) (particles (updateConnections cfg s)))
      = map (\<lambda>p. (life p, decay p)) (map (\<lambda>p. p\<lparr>connections := []\<rparr>) (particles s))"
    by (simp only: updateConnections_other_fields)
  then show ?thesis by (simp add: comp_def)
qed

lemma life_decay_animate:
  assumes "animate cfg win s = Inr s'"
  shows "map (\<lambda>p. (life p, decay p)) (particles s')
           = map (\<lambda>p. (life p, decay p)) (updateParticles cfg win (particles s))"
proof -
  from assms obtain issued where c: "ctx s = Some issued"
    by (cases "ctx s") (simp_all add: animate_None)
  from animate_Some [OF c, of cfg win] assms
  have "particles s' = particles (updateConnections cfg
          (s\<lparr>particles := updateParticles cfg win (particles (applyMouseForces cfg s))\<rparr>))"
    by auto
  then have "map (\<lambda>p. (life p, decay p)) (particles s')
      = map (\<lambda>p. (life p, decay p)) (updateParticles cfg win (particles (applyMouseForces cfg s)))"
    by (simp add: life_decay_updateConnections)
  also have "\<dots> = map (\<lambda>p. (life p, decay p)) (updateParticles cfg win (particles s))"
    by (rule life_decay_updateParticles_cong) (rule life_decay_applyMouseForces)
  finally show ?thesis .
qed

lemma life_decay_runFrames:
  assumes "ctx s = Some issued" and "pendingFrames s = 1"
  shows "map (\<lambda>p. (life p, decay p)) (particles (runFrames cfg win n s))
           = map (\<lambda>p. (life p, decay p)) ((updateParticles cfg win ^^ n) (particles s))"
  using assms
proof (induction n arbitrary: s issued)
  case 0
  then show ?case by simp
next
  case (Suc n)
  let ?s0 = "s\<lparr>pendingFrames := pendingFrames s - 1\<rparr>"
  have c0: "ctx ?s0 = Some issued" using Suc.prems by simp
  from animate_Some [OF c0, of cfg win]
  obtain s1 where s1: "animate cfg win ?s0 = Inr s1"
    and p1: "pendingFrames s1 = pendingFrames ?s0 + 1"
    and c1: "\<exists>issued1. ctx s1 = Some issued1"
    by blast
  from c1 obtain issued1 where c1': "ctx s1 = Some issued1" by blast
  have pend: "pendingFrames s1 = 1" using p1 Suc.prems by simp
  have run: "runFrames cfg win (Suc n) s = runFrames cfg win n s1"
    using Suc.prems s1 by (simp add: runFrame_def)
  have "map (\<lambda>p. (life p, decay p)) (particles (runFrames cfg win n s1))
          = map (\<lambda>p. (life p, decay p)) ((updateParticles cfg win ^^ n) (particles s1))"
    by (rule Suc.IH [OF c1' pend])
  also have "\<dots> = map (\<lambda>p. (life p, decay p))
                      ((updateParticles cfg win ^^ n) (updateParticles cfg win (particles s)))"
    using life_decay_animate [OF s1] by (intro life_decay_funpow_cong) simp
  also have "\<dots> = map (\<lambda>p. (life p, decay p)) ((updateParticles cfg win ^^ Suc n) (particles s))"
    by (simp add: funpow_swap1)
  finally show ?case by (simp only: run)
qed

lemma life_runFrames:
  assumes "ctx s = Some issued" and "pendingFrames s = 1"
  shows "map life (particles (runFrames cfg win n s))
           = map life ((updateParticles cfg win ^^ n) (particles s))"
proof -
  have "map fst (map (\<lambda>p. (life p, decay p)) (particles (runFrames cfg win n s)))
          = map fst (map (\<lambda>p. (life p, decay p)) ((updateParticles cfg win ^^ n) (particles s)))"
    by (simp only: life_decay_runFrames [OF assms])
  then show ?thesis by (simp add: comp_def)
qed


lemma createExplosion_sel [simp]:
  "ctx (createExplosion cfg rnd ex ey s) = ctx s"
  "pendingFrames (createExplosion cfg rnd ex ey s) = pendingFrames s"
  by (simp_all add: createExplosion_def Let_def)

lemma started_empty:
  "\<exists>s1 issued. start PARTICLE_CONFIG example_window (example_system []) = Inr s1
     \<and> particles s1 = [] \<and> ctx s1 = Some issued \<and> pendingFrames s1 = 1"
proof -
  have c: "ctx (handleResize example_window (example_system [])) = Some []"
    by (simp add: handleResize_def)
  from animate_Some [OF c, of PARTICLE_CONFIG example_window]
  obtain s1 where "animate PARTICLE_CONFIG example_window
                     (handleResize example_window (example_system [])) = Inr s1"
    and "pendingFrames s1 = pendingFrames (handleResize example_window (example_system [])) + 1"
    and "particles s1 = particles (updateConnections PARTICLE_CONFIG
           ((handleResize example_window (example_system []))
              \<lparr>particles := updateParticles PARTICLE_CONFIG example_window
                 (particles (applyMouseForces PARTICLE_CONFIG
                    (handleResize example_window (example_system []))))\<rparr>))"
    and "\<exists>issued. ctx s1 = Some issued"
    by blast
  then show ?thesis
    by (auto simp: start_def particles_updateConnections applyMouseForces_def handleResize_def)
qed

text \<open>
  Claim C7 at a concrete input, with the configuration of the source (20 particles,
  lifetime 1000, documented in milliseconds): the explosion at \<open>(400, 300)\<close> in an empty
  field creates 20 particles. After 60 update passes, the frames of 1000 ms at 60
  frames a second, all 20 are still in the field, with remaining life 0.94, and not
  removed as the claim says; they are still there after 999 passes and are removed by
  pass 1000. The same in whole frames: in a started system without particles, 60
  frames after the explosion the field holds the 20 particles with life 0.94.
\<close>

theorem C7_burst_outlives_lifetime:
  "length (particles (createExplosion PARTICLE_CONFIG (\<lambda>k. 1 / 2) 400 300 (example_system [])))
     = 20
   \<and> map life ((updateParticles PARTICLE_CONFIG example_window ^^ 60)
        (particles (createExplosion PARTICLE_CONFIG (\<lambda>k. 1 / 2) 400 300 (example_system []))))
     = replicate 20 (47 / 50)
   \<and> length ((updateParticles PARTICLE_CONFIG example_window ^^ 999)
        (particles (createExplosion PARTICLE_CONFIG (\<lambda>k. 1 / 2) 400 300 (example_system []))))
     = 20
   \<and> (updateParticles PARTICLE_CONFIG example_window ^^ 1000)
        (particles (createExplosion PARTICLE_CONFIG (\<lambda>k. 1 / 2) 400 300 (example_system [])))
     = []
   \<and> (case start PARTICLE_CONFIG example_window (example_system []) of
         Inl thrown \<Rightarrow> None
       | Inr s1 \<Rightarrow>
           Some (map life (particles (runFrames PARTICLE_CONFIG example_window 60
                   (createExplosion PARTICLE_CONFIG (\<lambda>k. 1 / 2) 400 300 s1)))))
     = Some (replicate 20 (47 / 50))"
proof (intro conjI)
  show "length (particles (createExplosion PARTICLE_CONFIG (\<lambda>k. 1 / 2) 400 300
                  (example_system []))) = 20"
    by (simp add: burst_on_empty_field)
  have l60: "map life ((updateParticles PARTICLE_CONFIG example_window ^^ 60)
          (map (explosionParticle PARTICLE_CONFIG (\<lambda>k. 1 / 2) 400 300) [0..<20]))
        = replicate 20 (1 - real 60 / explosion_lifetime PARTICLE_CONFIG)"
    by (rule burst_life) simp_all
  then show "map life ((updateParticles PARTICLE_CONFIG example_window ^^ 60)
        (particles (createExplosion PARTICLE_CONFIG (\<lambda>k. 1 / 2) 400 300 (example_system []))))
     = replicate 20 (47 / 50)"
    by (simp add: burst_on_empty_field)
  have "map life ((updateParticles PARTICLE_CONFIG example_window ^^ 999)
          (map (explosionParticle PARTICLE_CONFIG (\<lambda>k. 1 / 2) 400 300) [0..<20]))
        = replicate 20 (1 - real 999 / explosion_lifetime PARTICLE_CONFIG)"
    by (rule burst_life) simp_all
  then have "length (map life ((updateParticles PARTICLE_CONFIG example_window ^^ 999)
          (map (explosionParticle PARTICLE_CONFIG (\<lambda>k. 1 / 2) 400 300) [0..<20]))) = 20"
    by simp
  then show "length ((updateParticles PARTICLE_CONFIG example_window ^^ 999)
        (particles (createExplosion PARTICLE_CONFIG (\<lambda>k. 1 / 2) 400 300 (example_system []))))
     = 20"
    by (simp add: burst_on_empty_field)
  have "(updateParticles PARTICLE_CONFIG example_window ^^ Suc 999)
          (map (explosionParticle PARTICLE_CONFIG (\<lambda>k. 1 / 2) 400 300) [0..<20]) = []"
    by (rule burst_removed) simp
  then show "(updateParticles PARTICLE_CONFIG example_window ^^ 1000)
        (particles (createExplosion PARTICLE_CONFIG (\<lambda>k. 1 / 2) 400 300 (example_system [])))
     = []"
    by (simp add: burst_on_empty_field del: funpow.simps)
  from started_empty obtain s1 issued where
    s1: "start PARTICLE_CONFIG example_window (example_system []) = Inr s1"
    and e: "particles s1 = []" and c: "ctx s1 = Some issued" and p: "pendingFrames s1 = 1"
    by blast
  let ?s2 = "createExplosion PARTICLE_CONFIG (\<lambda>k. 1 / 2) 400 300 s1"
  have burst: "particles ?s2 = map (explosionParticle PARTICLE_CONFIG (\<lambda>k. 1 / 2) 400 300) [0..<20]"
    by (simp add: particles_createExplosion Let_def e)
  have "map life (particles (runFrames PARTICLE_CONFIG example_window 60 ?s2))
          = map life ((updateParticles PARTICLE_CONFIG example_window ^^ 60) (particles ?s2))"
    by (rule life_runFrames [of _ issued]) (simp_all add: c p)
  also have "\<dots> = replicate 20 (47 / 50)"
    unfolding burst using l60 by simp
  finally show "(case start PARTICLE_CONFIG example_window (example_system []) of
         Inl thrown \<Rightarrow> None
       | Inr s1 \<Rightarrow>
           Some (map life (particles (runFrames PARTICLE_CONFIG example_window 60
                   (createExplosion PARTICLE_CONFIG (\<lambda>k. 1 / 2) 400 300 s1)))))
     = Some (replicate 20 (47 / 50))"
    by (simp add: s1)
qed

end
